theory Spec2Isabelle
  imports Complex_Main
begin

section \<open>JavaScript numbers\<close>

text \<open>
  A TypeScript \<open>number\<close> is modelled as a real number extended with the three special
  values of IEEE arithmetic that the engine can produce by dividing by zero: \<open>NaN\<close>,
  \<open>Infinity\<close> and \<open>-Infinity\<close>.  The operators \<open>+\<close>, \<open>-\<close>, \<open>*\<close> and \<open>/\<close> are
  exact on finite numbers, and the sign of zero is not modelled (a zero divisor counts
  as \<open>+0\<close>); the rounding of a double is the separate function \<open>dbl\<close> below, applied
  where a whole-number result depends on it.
  Counters that the code only ever increments by one and array lengths are \<open>nat\<close>; the
  simulation clock (days and hours) is \<open>int\<close>.
\<close>

datatype jsnum = NaN | PInf | NInf | Fin real

instantiation jsnum :: "{plus, minus, times, inverse}"
begin

definition plus_jsnum :: "jsnum \<Rightarrow> jsnum \<Rightarrow> jsnum" where
  "plus_jsnum a b =
     (case (a, b) of
        (NaN, _) \<Rightarrow> NaN
      | (_, NaN) \<Rightarrow> NaN
      | (PInf, NInf) \<Rightarrow> NaN
      | (NInf, PInf) \<Rightarrow> NaN
      | (PInf, _) \<Rightarrow> PInf
      | (_, PInf) \<Rightarrow> PInf
      | (NInf, _) \<Rightarrow> NInf
      | (_, NInf) \<Rightarrow> NInf
      | (Fin x, Fin y) \<Rightarrow> Fin (x + y))"

definition minus_jsnum :: "jsnum \<Rightarrow> jsnum \<Rightarrow> jsnum" where
  "minus_jsnum a b =
     (case (a, b) of
        (NaN, _) \<Rightarrow> NaN
      | (_, NaN) \<Rightarrow> NaN
      | (PInf, PInf) \<Rightarrow> NaN
      | (NInf, NInf) \<Rightarrow> NaN
      | (PInf, _) \<Rightarrow> PInf
      | (_, NInf) \<Rightarrow> PInf
      | (NInf, _) \<Rightarrow> NInf
      | (_, PInf) \<Rightarrow> NInf
      | (Fin x, Fin y) \<Rightarrow> Fin (x - y))"

definition times_jsnum :: "jsnum \<Rightarrow> jsnum \<Rightarrow> jsnum" where
  "times_jsnum a b =
     (case (a, b) of
        (NaN, _) \<Rightarrow> NaN
      | (_, NaN) \<Rightarrow> NaN
      | (PInf, PInf) \<Rightarrow> PInf
      | (PInf, NInf) \<Rightarrow> NInf
      | (NInf, PInf) \<Rightarrow> NInf
      | (NInf, NInf) \<Rightarrow> PInf
      | (PInf, Fin y) \<Rightarrow> (if y = 0 then NaN else if 0 < y then PInf else NInf)
      | (NInf, Fin y) \<Rightarrow> (if y = 0 then NaN else if 0 < y then NInf else PInf)
      | (Fin x, PInf) \<Rightarrow> (if x = 0 then NaN else if 0 < x then PInf else NInf)
      | (Fin x, NInf) \<Rightarrow> (if x = 0 then NaN else if 0 < x then NInf else PInf)
      | (Fin x, Fin y) \<Rightarrow> Fin (x * y))"

definition divide_jsnum :: "jsnum \<Rightarrow> jsnum \<Rightarrow> jsnum" where
  "divide_jsnum a b =
     (case (a, b) of
        (NaN, _) \<Rightarrow> NaN
      | (_, NaN) \<Rightarrow> NaN
      | (PInf, PInf) \<Rightarrow> NaN
      | (PInf, NInf) \<Rightarrow> NaN
      | (NInf, PInf) \<Rightarrow> NaN
      | (NInf, NInf) \<Rightarrow> NaN
      | (PInf, Fin y) \<Rightarrow> (if 0 \<le> y then PInf else NInf)
      | (NInf, Fin y) \<Rightarrow> (if 0 \<le> y then NInf else PInf)
      | (Fin x, PInf) \<Rightarrow> Fin 0
      | (Fin x, NInf) \<Rightarrow> Fin 0
      | (Fin x, Fin y) \<Rightarrow>
          (if y = 0 then (if x = 0 then NaN else if 0 < x then PInf else NInf)
           else Fin (x / y)))"

definition inverse_jsnum :: "jsnum \<Rightarrow> jsnum" where
  "inverse_jsnum a = divide (Fin 1) a"

instance ..

end

text \<open>The comparison operators: every comparison with \<open>NaN\<close> is false.\<close>

fun jlt :: "jsnum \<Rightarrow> jsnum \<Rightarrow> bool" where
  "jlt NaN _ = False"
| "jlt _ NaN = False"
| "jlt PInf _ = False"
| "jlt _ PInf = True"
| "jlt _ NInf = False"
| "jlt NInf _ = True"
| "jlt (Fin x) (Fin y) = (x < y)"

definition jgt :: "jsnum \<Rightarrow> jsnum \<Rightarrow> bool" where
  "jgt a b = jlt b a"

text \<open>Strict equality \<open>===\<close> on numbers: \<open>NaN\<close> equals nothing.\<close>

definition jeq :: "jsnum \<Rightarrow> jsnum \<Rightarrow> bool" where
  "jeq a b = (a \<noteq> NaN \<and> b \<noteq> NaN \<and> a = b)"

definition jle :: "jsnum \<Rightarrow> jsnum \<Rightarrow> bool" where
  "jle a b = (jlt a b \<or> jeq a b)"

definition jge :: "jsnum \<Rightarrow> jsnum \<Rightarrow> bool" where
  "jge a b = jle b a"

text \<open>\<open>Math.min\<close> and \<open>Math.max\<close> of two arguments return \<open>NaN\<close> when either is.\<close>

definition Math_min :: "jsnum \<Rightarrow> jsnum \<Rightarrow> jsnum" where
  "Math_min a b = (if a = NaN \<or> b = NaN then NaN else if jlt b a then b else a)"

definition Math_max :: "jsnum \<Rightarrow> jsnum \<Rightarrow> jsnum" where
  "Math_max a b = (if a = NaN \<or> b = NaN then NaN else if jlt a b then b else a)"

fun Math_ceil :: "jsnum \<Rightarrow> jsnum" where
  "Math_ceil (Fin x) = Fin (of_int \<lceil>x\<rceil>)"
| "Math_ceil a = a"

text \<open>\<open>Math.round\<close> rounds half up: \<open>floor (x + 0.5)\<close>.\<close>

fun Math_round :: "jsnum \<Rightarrow> jsnum" where
  "Math_round (Fin x) = Fin (of_int \<lfloor>x + 1 / 2\<rfloor>)"
| "Math_round a = a"

fun Math_abs :: "jsnum \<Rightarrow> jsnum" where
  "Math_abs (Fin x) = Fin \<bar>x\<bar>"
| "Math_abs NaN = NaN"
| "Math_abs a = PInf"

fun Math_sqrt :: "jsnum \<Rightarrow> jsnum" where
  "Math_sqrt (Fin x) = (if x < 0 then NaN else Fin (sqrt x))"
| "Math_sqrt NInf = NaN"
| "Math_sqrt a = a"

text \<open>A number that came from a count or a length.\<close>

definition num :: "nat \<Rightarrow> jsnum" where
  "num n = Fin (of_nat n)"

fun is_finite :: "jsnum \<Rightarrow> bool" where
  "is_finite (Fin x) = True"
| "is_finite a = False"

subsection \<open>Rounding to a double\<close>

text \<open>
  Where the forecaster and the calibrator turn a computed product into a whole number with
  \<open>Math.ceil\<close>, the last digit of the double decides the result, so there every operation
  is rounded as the machine rounds it: to the nearest number with a 53-bit significand,
  ties to the even significand.  Exponent overflow and subnormal numbers are not
  modelled: the rounding is that of binary64 for magnitudes in its normal range.
\<close>

text \<open>The number of binary digits of a positive whole number.\<close>

function bitLength :: "int \<Rightarrow> nat" where
  "bitLength n = (if n \<le> 0 then 0 else Suc (bitLength (n div 2)))"
  by pat_completeness auto
termination
  by (relation "measure nat") auto

text \<open>The exponent \<open>e\<close> with \<open>2 ^ e \<le> x < 2 ^ (e + 1)\<close>, for a positive \<open>x\<close>.\<close>

definition binaryExponent :: "real \<Rightarrow> int" where
  "binaryExponent x =
     (if 1 \<le> x then int (bitLength \<lfloor>x\<rfloor>) - 1
      else - int (bitLength (\<lceil>1 / x\<rceil> - 1)))"

definition pow2 :: "int \<Rightarrow> real" where
  "pow2 k = (if 0 \<le> k then 2 ^ nat k else 1 / 2 ^ nat (- k))"

definition roundHalfEven :: "real \<Rightarrow> int" where
  "roundHalfEven m =
     (let f = \<lfloor>m\<rfloor> in
      if m - of_int f < 1 / 2 then f
      else if 1 / 2 < m - of_int f then f + 1
      else if even f then f else f + 1)"

definition nearestDouble :: "real \<Rightarrow> real" where
  "nearestDouble x =
     (if x = 0 then 0
      else
        (let a = \<bar>x\<bar>;
             ulp = pow2 (binaryExponent a - 52)
         in sgn x * (of_int (roundHalfEven (a / ulp)) * ulp)))"

fun dbl :: "jsnum \<Rightarrow> jsnum" where
  "dbl (Fin x) = Fin (nearestDouble x)"
| "dbl a = a"

section \<open>Shared types\<close>

text \<open>
  Modelled from the spec: the module \<open>../types\<close>, which the engine imports for
  \<open>PerClassAmount\<close>, \<open>KIT_CLASSES\<close>, \<open>Airport\<close>, \<open>Aircraft\<close>, \<open>FlightPlan\<close> and
  \<open>FlightEvent\<close>, is not among the source files.  The kit classes are the four fields
  of \<open>PerClassAmount\<close> in the data model, and \<open>KIT_CLASSES\<close> lists them in the order in
  which every object literal of the engine does.
\<close>

datatype kit_class = First | Business | PremiumEconomy | Economy

definition KIT_CLASSES :: "kit_class list" where
  "KIT_CLASSES = [First, Business, PremiumEconomy, Economy]"

text \<open>
  Modelled from the spec: \<open>PerClassAmount\<close>, the record of the four fields \<open>first\<close>,
  \<open>business\<close>, \<open>premiumEconomy\<close> and \<open>economy\<close>.  It is \<open>jsnum per_class\<close>, and
  \<open>Record<keyof PerClassAmount, T>\<close> is \<open>T per_class\<close>.
\<close>

record 'a per_class =
  first :: 'a
  business :: 'a
  premiumEconomy :: 'a
  economy :: 'a

type_synonym PerClassAmount = "jsnum per_class"

text \<open>\<open>obj[kitClass]\<close> and \<open>obj[kitClass] = v\<close>.\<close>

fun pc_get :: "'a per_class \<Rightarrow> kit_class \<Rightarrow> 'a" where
  "pc_get p First = first p"
| "pc_get p Business = business p"
| "pc_get p PremiumEconomy = premiumEconomy p"
| "pc_get p Economy = economy p"

fun pc_set :: "kit_class \<Rightarrow> 'a \<Rightarrow> 'a per_class \<Rightarrow> 'a per_class" where
  "pc_set First v p = p\<lparr>first := v\<rparr>"
| "pc_set Business v p = p\<lparr>business := v\<rparr>"
| "pc_set PremiumEconomy v p = p\<lparr>premiumEconomy := v\<rparr>"
| "pc_set Economy v p = p\<lparr>economy := v\<rparr>"

definition amount :: "real \<Rightarrow> real \<Rightarrow> real \<Rightarrow> real \<Rightarrow> PerClassAmount" where
  "amount f b p e = \<lparr>first = Fin f, business = Fin b, premiumEconomy = Fin p, economy = Fin e\<rparr>"

text \<open>
  Modelled from the spec: the reference data and the flight events, with the fields that
  the engine reads.  An airport has its hub flag, its capacity and its loading and
  processing costs per class (the engine reads the costs through \<open>?.\<close>, so they may be
  absent); its code is the key of the airports map.  An aircraft type has its seats per
  class and its fuel cost per kilogram and kilometre.  A flight plan has its two airport
  codes, its scheduled hours of departure and arrival, its weekday mask and its distance.
  A flight event has its two airport codes, its departure and arrival as (day, hour), and
  its passengers per class.
\<close>

record Airport =
  isHub :: bool
  capacity :: PerClassAmount
  loadingCost :: "PerClassAmount option"
  processingCost :: "PerClassAmount option"

record Aircraft =
  seats :: PerClassAmount
  costPerKgPerKm :: jsnum

record FlightPlan =
  departCode :: string
  arrivalCode :: string
  scheduledHour :: int
  scheduledArrivalHour :: int
  weekdays :: "bool list"
  distanceKm :: jsnum

record DayHour =
  day :: int
  hour :: int

record FlightEvent =
  originAirport :: string
  destinationAirport :: string
  departure :: DayHour
  arrival :: DayHour
  passengers :: PerClassAmount


section \<open>Calibration output (calibrator.ts)\<close>

record NetworkTopology =
  hubCode :: string
  spokeCount :: nat
  totalFlightsPerDay :: jsnum
  avgFlightsPerSpoke :: jsnum
  hubCapacity :: PerClassAmount
  avgSpokeCapacity :: PerClassAmount
  minSpokeCapacity :: PerClassAmount
  capacityRatio :: PerClassAmount

record RouteEconomics =
  avgDistance :: jsnum
  minDistance :: jsnum
  maxDistance :: jsnum
  distanceStdDev :: jsnum
  avgPenaltyPerEconomyKit :: jsnum
  avgTransportCost :: jsnum
  penaltyCostRatio :: jsnum

record EconomyLoadFactorConfig =
  baseline :: jsnum
  warningThreshold :: jsnum
  dangerThreshold :: jsnum
  minFactor :: jsnum
  maxFactor :: jsnum

text \<open>The object \<open>destinationBuffers\<close>; its fields carry a prefix to keep them apart from
  the kit classes.\<close>

record DestinationBuffers =
  db_hub :: jsnum
  db_economy :: jsnum
  db_premiumEconomy :: jsnum
  db_firstBusiness :: jsnum

record DatasetCharacteristics =
  topology :: NetworkTopology
  economics :: RouteEconomics
  economyLoadFactor :: EconomyLoadFactorConfig
  demandEstimates :: PerClassAmount
  destinationBuffers :: DestinationBuffers
  purchaseThresholdPercents :: PerClassAmount
  confidence :: jsnum
  warnings :: "string list"

section \<open>DemandForecaster (forecasting.ts)\<close>

record DemandStats =
  ds_count :: nat
  ds_sum :: PerClassAmount
  ds_sumSq :: PerClassAmount
  ds_min :: PerClassAmount
  ds_max :: PerClassAmount

record DemandForecaster =
  flightPlans :: "FlightPlan list"
  observedDemands :: "jsnum list per_class"
  cachedAverages :: "PerClassAmount option"
  characteristics :: "DatasetCharacteristics option"
  demandStats :: DemandStats

text \<open>The field initialisers and the constructor.\<close>

definition newDemandForecaster ::
  "FlightPlan list \<Rightarrow> DatasetCharacteristics option \<Rightarrow> DemandForecaster" where
  "newDemandForecaster plans chars =
     \<lparr>flightPlans = plans,
      observedDemands = \<lparr>first = [], business = [], premiumEconomy = [], economy = []\<rparr>,
      cachedAverages = None,
      characteristics = chars,
      demandStats =
        \<lparr>ds_count = 0,
         ds_sum = amount 0 0 0 0,
         ds_sumSq = amount 0 0 0 0,
         ds_min = \<lparr>first = PInf, business = PInf, premiumEconomy = PInf, economy = PInf\<rparr>,
         ds_max = amount 0 0 0 0\<rparr>\<rparr>"

text \<open>The body of the first loop of \<open>recordObservedDemand\<close>: \<open>push\<close>, then one
  \<open>shift\<close> when the array has grown beyond 100.\<close>

definition pushObserved :: "PerClassAmount \<Rightarrow> jsnum list per_class \<Rightarrow> kit_class \<Rightarrow> jsnum list per_class" where
  "pushObserved pax obs kitClass =
     (let count = pc_get pax kitClass in
      if jgt count (Fin 0) then
        (let pushed = pc_get obs kitClass @ [count] in
         pc_set kitClass (if 100 < length pushed then tl pushed else pushed) obs)
      else obs)"

text \<open>The body of its second loop.\<close>

definition accumulate :: "PerClassAmount \<Rightarrow> DemandStats \<Rightarrow> kit_class \<Rightarrow> DemandStats" where
  "accumulate pax st kitClass =
     (let val = pc_get pax kitClass in
      st\<lparr>ds_sum := pc_set kitClass (pc_get (ds_sum st) kitClass + val) (ds_sum st),
         ds_sumSq := pc_set kitClass (pc_get (ds_sumSq st) kitClass + val * val) (ds_sumSq st),
         ds_min := pc_set kitClass (Math_min (pc_get (ds_min st) kitClass) val) (ds_min st),
         ds_max := pc_set kitClass (Math_max (pc_get (ds_max st) kitClass) val) (ds_max st)\<rparr>)"

definition recordObservedDemand :: "DemandForecaster \<Rightarrow> PerClassAmount \<Rightarrow> DemandForecaster" where
  "recordObservedDemand this pax =
     this\<lparr>observedDemands := foldl (pushObserved pax) (observedDemands this) KIT_CLASSES,
          cachedAverages := None,
          demandStats :=
            foldl (accumulate pax)
              ((demandStats this)\<lparr>ds_count := ds_count (demandStats this) + 1\<rparr>) KIT_CLASSES\<rparr>"

definition getObservedMean :: "DemandForecaster \<Rightarrow> kit_class \<Rightarrow> jsnum" where
  "getObservedMean this kitClass =
     (if ds_count (demandStats this) = 0 then Fin 0
      else pc_get (ds_sum (demandStats this)) kitClass / num (ds_count (demandStats this)))"

definition getObservedVariance :: "DemandForecaster \<Rightarrow> kit_class \<Rightarrow> jsnum" where
  "getObservedVariance this kitClass =
     (if ds_count (demandStats this) < 2 then Fin 0
      else
        (let mean = getObservedMean this kitClass;
             meanSq = pc_get (ds_sumSq (demandStats this)) kitClass / num (ds_count (demandStats this))
         in meanSq - mean * mean))"

text \<open>\<open>this.characteristics?.demandEstimates ?? {first: 10, ...}\<close>\<close>

definition initialEstimates :: "DemandForecaster \<Rightarrow> PerClassAmount" where
  "initialEstimates this =
     (case characteristics this of
        None \<Rightarrow> amount 10 50 25 200
      | Some c \<Rightarrow> demandEstimates c)"

text \<open>The loop of \<open>shouldRecalibrate\<close>, with its \<open>continue\<close> and its early return.\<close>

fun anyClassDeviates :: "DemandForecaster \<Rightarrow> PerClassAmount \<Rightarrow> kit_class list \<Rightarrow> bool" where
  "anyClassDeviates this estimates [] = False"
| "anyClassDeviates this estimates (kitClass # rest) =
     (let observed = getObservedMean this kitClass;
          estimated = pc_get estimates kitClass
      in if jeq estimated (Fin 0) then anyClassDeviates this estimates rest
         else
           (let ratio = observed / estimated in
            if jlt ratio (Fin 0.75) \<or> jgt ratio (Fin 1.25) then True
            else anyClassDeviates this estimates rest))"

definition shouldRecalibrate :: "DemandForecaster \<Rightarrow> bool" where
  "shouldRecalibrate this =
     (if ds_count (demandStats this) < 50 then False
      else anyClassDeviates this (initialEstimates this) KIT_CLASSES)"

text \<open>The body of the loop of \<open>getUpdatedDemandEstimates\<close>, in double arithmetic.  The sum
  of whole passenger counts is held exactly, so the mean that the code computes is the
  rounding of the exact quotient \<open>getObservedMean\<close>; the constants are the doubles
  nearest to 1.3, 0.7 and 0.3, and every product and the sum are rounded.\<close>

definition blendEstimate :: "DemandForecaster \<Rightarrow> PerClassAmount \<Rightarrow> PerClassAmount \<Rightarrow> kit_class \<Rightarrow> PerClassAmount" where
  "blendEstimate this initial updated kitClass =
     (let observed = dbl (dbl (getObservedMean this kitClass) * dbl (Fin 1.3)) in
      pc_set kitClass
        (Math_ceil (dbl (dbl (observed * dbl (Fin 0.7)) + dbl (pc_get initial kitClass * dbl (Fin 0.3)))))
        updated)"

definition getUpdatedDemandEstimates :: "DemandForecaster \<Rightarrow> PerClassAmount" where
  "getUpdatedDemandEstimates this =
     (if ds_count (demandStats this) < 20 then initialEstimates this
      else
        (let initial = initialEstimates this in
         foldl (blendEstimate this initial) (amount 0 0 0 0) KIT_CLASSES))"

definition calculateAverage :: "jsnum list \<Rightarrow> jsnum" where
  "calculateAverage arr =
     (if length arr = 0 then Fin 0 else foldl (+) (Fin 0) arr / num (length arr))"

definition getTypicalDemandEstimate :: "DemandForecaster \<Rightarrow> kit_class \<Rightarrow> jsnum" where
  "getTypicalDemandEstimate this kitClass =
     (case characteristics this of
        Some c \<Rightarrow> pc_get (demandEstimates c) kitClass
      | None \<Rightarrow>
          (case kitClass of
             First \<Rightarrow> Fin 10
           | Business \<Rightarrow> Fin 50
           | PremiumEconomy \<Rightarrow> Fin 25
           | Economy \<Rightarrow> Fin 200))"

text \<open>\<open>getDynamicDemandEstimate\<close> fills the cache of averages on its way: it returns the
  estimate together with the forecaster.  The average of a window of whole counts and its
  product with 1.3 are rounded to doubles before \<open>Math.ceil\<close>.\<close>

definition getDynamicDemandEstimate :: "DemandForecaster \<Rightarrow> kit_class \<Rightarrow> jsnum \<times> DemandForecaster" where
  "getDynamicDemandEstimate this kitClass =
     (let observations = pc_get (observedDemands this) kitClass in
      if 5 \<le> length observations then
        (case cachedAverages this of
           None \<Rightarrow>
             (let avgs =
                \<lparr>first = calculateAverage (first (observedDemands this)),
                 business = calculateAverage (business (observedDemands this)),
                 premiumEconomy = calculateAverage (premiumEconomy (observedDemands this)),
                 economy = calculateAverage (economy (observedDemands this))\<rparr>
              in (Math_ceil (dbl (dbl (pc_get avgs kitClass) * dbl (Fin 1.3))),
                  this\<lparr>cachedAverages := Some avgs\<rparr>))
         | Some avgs \<Rightarrow> (Math_ceil (dbl (dbl (pc_get avgs kitClass) * dbl (Fin 1.3))), this))
      else (getTypicalDemandEstimate this kitClass, this))"

text \<open>The remainder operator \<open>%\<close> on whole numbers, for a positive divisor: the result has
  the sign of the dividend.\<close>

definition js_rem :: "int \<Rightarrow> int \<Rightarrow> int" where
  "js_rem a b = (if 0 \<le> a then a mod b else - ((- a) mod b))"

text \<open>\<open>plan.weekdays[i]\<close> used as a condition: outside the array it is \<open>undefined\<close>,
  which is falsy.\<close>

definition weekdayActive :: "bool list \<Rightarrow> int \<Rightarrow> bool" where
  "weekdayActive ws i = (0 \<le> i \<and> nat i < length ws \<and> ws ! nat i)"

text \<open>The condition under which the first loop of \<open>calculateDemandForAirport\<close> adds a
  known flight.\<close>

definition departureCounted :: "string \<Rightarrow> int \<Rightarrow> int \<Rightarrow> int \<Rightarrow> FlightEvent \<Rightarrow> bool" where
  "departureCounted airportCode currentDay currentHour withinHours flight =
     (let targetDay = currentDay + (currentHour + withinHours) div 24;
          targetHour = js_rem (currentHour + withinHours) 24
      in originAirport flight = airportCode \<and>
         (let departsInWindow =
                day (departure flight) < targetDay \<or>
                (day (departure flight) = targetDay \<and> hour (departure flight) \<le> targetHour);
              departsAfterNow =
                currentDay < day (departure flight) \<or>
                (day (departure flight) = currentDay \<and> currentHour \<le> hour (departure flight))
          in departsInWindow \<and> departsAfterNow))"

definition knownFlightsDemand ::
  "string \<Rightarrow> int \<Rightarrow> int \<Rightarrow> int \<Rightarrow> kit_class \<Rightarrow> (string \<times> FlightEvent) list \<Rightarrow> jsnum" where
  "knownFlightsDemand airportCode currentDay currentHour withinHours kitClass knownFlights =
     foldl (\<lambda>demand flight.
              if departureCounted airportCode currentDay currentHour withinHours flight
              then demand + pc_get (passengers flight) kitClass else demand)
       (Fin 0) (map snd knownFlights)"

text \<open>The inner loop over the flight plans, for one hour of the horizon.\<close>

fun plansAtHour ::
  "string \<Rightarrow> int \<Rightarrow> int \<Rightarrow> kit_class \<Rightarrow> FlightPlan list \<Rightarrow> jsnum \<times> DemandForecaster
     \<Rightarrow> jsnum \<times> DemandForecaster" where
  "plansAtHour airportCode checkHour weekdayIndex kitClass [] acc = acc"
| "plansAtHour airportCode checkHour weekdayIndex kitClass (plan # rest) (demand, this) =
     (if departCode plan = airportCode \<and> scheduledHour plan = checkHour \<and>
         weekdayActive (weekdays plan) weekdayIndex
      then
        (let (estimate, this') = getDynamicDemandEstimate this kitClass in
         plansAtHour airportCode checkHour weekdayIndex kitClass rest (demand + estimate, this'))
      else plansAtHour airportCode checkHour weekdayIndex kitClass rest (demand, this))"

text \<open>The outer loop \<open>for (h = 0; h < withinHours; h++)\<close>, by the number of iterations left.\<close>

fun hoursLoop ::
  "nat \<Rightarrow> string \<Rightarrow> int \<Rightarrow> int \<Rightarrow> kit_class \<Rightarrow> FlightPlan list \<Rightarrow> jsnum \<times> DemandForecaster
     \<Rightarrow> jsnum \<times> DemandForecaster" where
  "hoursLoop 0 airportCode checkHour checkDay kitClass plans acc = acc"
| "hoursLoop (Suc n) airportCode checkHour checkDay kitClass plans acc =
     (let weekdayIndex = js_rem checkDay 7;
          acc' = plansAtHour airportCode checkHour weekdayIndex kitClass plans acc
      in if 24 \<le> checkHour + 1
         then hoursLoop n airportCode 0 (checkDay + 1) kitClass plans acc'
         else hoursLoop n airportCode (checkHour + 1) checkDay kitClass plans acc')"

definition calculateDemandForAirport ::
  "DemandForecaster \<Rightarrow> string \<Rightarrow> int \<Rightarrow> int \<Rightarrow> int \<Rightarrow> kit_class \<Rightarrow> (string \<times> FlightEvent) list
     \<Rightarrow> jsnum \<times> DemandForecaster" where
  "calculateDemandForAirport this airportCode currentDay currentHour withinHours kitClass knownFlights =
     hoursLoop (nat withinHours) airportCode currentHour currentDay kitClass (flightPlans this)
       (knownFlightsDemand airportCode currentDay currentHour withinHours kitClass knownFlights, this)"

text \<open>The real value of a finite number (0 for the special values), and the absolute hour
  of a point of the simulation clock.\<close>

fun fin_val :: "jsnum \<Rightarrow> real" where
  "fin_val (Fin x) = x"
| "fin_val a = 0"

definition absHour :: "DayHour \<Rightarrow> int" where
  "absHour t = 24 * day t + hour t"

text \<open>The two readings of "departs within the window" for a known flight, in absolute
  hours: the closed interval from now to now plus the horizon, and the half-open interval
  that excludes the current hour.\<close>

definition inClosedWindow :: "string \<Rightarrow> int \<Rightarrow> int \<Rightarrow> int \<Rightarrow> FlightEvent \<Rightarrow> bool" where
  "inClosedWindow airportCode currentDay currentHour withinHours flight =
     (originAirport flight = airportCode \<and>
      24 * currentDay + currentHour \<le> absHour (departure flight) \<and>
      absHour (departure flight) \<le> 24 * currentDay + currentHour + withinHours)"

definition inHalfOpenWindow :: "string \<Rightarrow> int \<Rightarrow> int \<Rightarrow> int \<Rightarrow> FlightEvent \<Rightarrow> bool" where
  "inHalfOpenWindow airportCode currentDay currentHour withinHours flight =
     (originAirport flight = airportCode \<and>
      24 * currentDay + currentHour < absHour (departure flight) \<and>
      absHour (departure flight) \<le> 24 * currentDay + currentHour + withinHours)"

section \<open>AdaptiveEngine (second module of calibrator.ts)\<close>

datatype StrategyMode = aggressive | balanced | conservative

datatype PenaltyType = INVENTORY_EXCEEDS_CAPACITY | FLIGHT_UNFULFILLED | NEGATIVE_INVENTORY

text \<open>An element of the argument of \<open>recordPenalties\<close>.\<close>

record Penalty =
  code :: string
  penalty :: jsnum
  reason :: string

record PenaltyRecord =
  pr_day :: int
  pr_hour :: int
  pr_type :: PenaltyType
  pr_amount :: jsnum
  pr_airportCode :: "string option"
  pr_kitClass :: "kit_class option"

record AirportPerformance =
  overflowCount :: nat
  unfulfilledCount :: nat
  lastOverflowDay :: int
  riskScore :: jsnum

record ClassPenaltyStats =
  cls_unfulfilledCount :: nat
  cls_unfulfilledCost :: jsnum
  cls_overflowCount :: nat
  cls_overflowCost :: jsnum

record DailySnapshot =
  snap_day :: int
  economyUnfulfilled :: jsnum
  totalOverflow :: jsnum

text \<open>The engine's fields.  \<open>loadingConfig\<close> is initialised to \<open>null\<close> and never read or
  written again; it is left out.\<close>

record AdaptiveEngine =
  penaltyHistory :: "PenaltyRecord list"
  roundPenalties :: "jsnum list"
  strategyMode :: StrategyMode
  airportPerformance :: "string \<rightharpoonup> AirportPerformance"
  bufferMultiplier :: jsnum
  economyBufferBoost :: jsnum
  classPenaltyStats :: "ClassPenaltyStats per_class"
  dailySnapshots :: "DailySnapshot list"
  loadFactorAdjustments :: PerClassAmount
  lastAdjustmentDay :: int

definition HISTORY_WINDOW :: nat where
  "HISTORY_WINDOW = 72"

definition TREND_WINDOW :: nat where
  "TREND_WINDOW = 72"

definition noPenalties :: ClassPenaltyStats where
  "noPenalties = \<lparr>cls_unfulfilledCount = 0, cls_unfulfilledCost = Fin 0,
                   cls_overflowCount = 0, cls_overflowCost = Fin 0\<rparr>"

definition newAdaptiveEngine :: AdaptiveEngine where
  "newAdaptiveEngine =
     \<lparr>penaltyHistory = [],
      roundPenalties = [],
      strategyMode = balanced,
      airportPerformance = Map.empty,
      bufferMultiplier = Fin 1,
      economyBufferBoost = Fin 0,
      classPenaltyStats = \<lparr>first = noPenalties, business = noPenalties,
                            premiumEconomy = noPenalties, economy = noPenalties\<rparr>,
      dailySnapshots = [],
      loadFactorAdjustments = amount 0 0 0 0,
      lastAdjustmentDay = - 1\<rparr>"

subsection \<open>Strings\<close>

fun startsWith :: "string \<Rightarrow> string \<Rightarrow> bool" where
  "startsWith s [] = True"
| "startsWith [] (p # ps) = False"
| "startsWith (c # cs) (p # ps) = (c = p \<and> startsWith cs ps)"

text \<open>\<open>s.includes(needle)\<close>\<close>

fun str_includes :: "string \<Rightarrow> string \<Rightarrow> bool" where
  "str_includes [] needle = (needle = [])"
| "str_includes (c # cs) needle = (startsWith (c # cs) needle \<or> str_includes cs needle)"

text \<open>The class \<open>\w\<close> of a regular expression.\<close>

definition isWordChar :: "char \<Rightarrow> bool" where
  "isWordChar c =
     (c \<in> set ''ABCDEFGHIJKLMNOPQRSTUVWXYZabcdefghijklmnopqrstuvwxyz0123456789_'')"

text \<open>Lower case of an ASCII letter, for the flag \<open>i\<close> and for \<open>toLowerCase\<close> on a match
  of ASCII letters.\<close>

definition lowerAscii :: "char \<Rightarrow> char" where
  "lowerAscii c =
     (case map_of (zip ''ABCDEFGHIJKLMNOPQRSTUVWXYZ'' ''abcdefghijklmnopqrstuvwxyz'') c of
        Some l \<Rightarrow> l
      | None \<Rightarrow> c)"

text \<open>Whether a lower-case pattern stands at the start of a string, letters compared
  without regard to case.\<close>

fun startsWithCI :: "string \<Rightarrow> string \<Rightarrow> bool" where
  "startsWithCI s [] = True"
| "startsWithCI [] (p # ps) = False"
| "startsWithCI (c # cs) (p # ps) = (lowerAscii c = p \<and> startsWithCI cs ps)"

text \<open>\<open>reason.match(/Airport (\w+)/)?.[1]\<close>: the leftmost place where \<open>Airport\<close>, a
  space and at least one word character stand; the group takes all the word characters
  that follow.\<close>

fun matchAirport :: "string \<Rightarrow> string option" where
  "matchAirport [] = None"
| "matchAirport (c # cs) =
     (if startsWith (c # cs) ''Airport '' \<and> takeWhile isWordChar (drop 8 (c # cs)) \<noteq> []
      then Some (takeWhile isWordChar (drop 8 (c # cs)))
      else matchAirport cs)"

text \<open>\<open>reason.match(/(First|Business|Premium Economy|Economy)/i)\<close>, followed by the
  translation of the lower-cased match into a kit class: the leftmost place where one of
  the alternatives stands, the alternatives tried in their order.\<close>

fun matchClass :: "string \<Rightarrow> kit_class option" where
  "matchClass [] = None"
| "matchClass (c # cs) =
     (if startsWithCI (c # cs) ''first'' then Some First
      else if startsWithCI (c # cs) ''business'' then Some Business
      else if startsWithCI (c # cs) ''premium economy'' then Some PremiumEconomy
      else if startsWithCI (c # cs) ''economy'' then Some Economy
      else matchClass cs)"

definition parseReason :: "string \<Rightarrow> string option \<times> kit_class option" where
  "parseReason r = (matchAirport r, matchClass r)"

definition classifyPenalty :: "string \<Rightarrow> PenaltyType" where
  "classifyPenalty c =
     (if c = ''INVENTORY_EXCEEDS_CAPACITY'' then INVENTORY_EXCEEDS_CAPACITY
      else if c = ''NEGATIVE_INVENTORY'' then NEGATIVE_INVENTORY
      else FLIGHT_UNFULFILLED)"

subsection \<open>Recording penalties\<close>

definition updateClassPenaltyStats ::
  "AdaptiveEngine \<Rightarrow> string \<Rightarrow> jsnum \<Rightarrow> kit_class option \<Rightarrow> AdaptiveEngine" where
  "updateClassPenaltyStats this c amt parsedClass =
     (let targetClass =
            (case parsedClass of
               Some k \<Rightarrow> Some k
             | None \<Rightarrow>
                 if str_includes c ''ECONOMY'' then Some Economy
                 else if str_includes c ''BUSINESS'' then Some Business
                 else if str_includes c ''PREMIUM'' then Some PremiumEconomy
                 else if str_includes c ''FIRST'' then Some First
                 else None)
      in case targetClass of
           None \<Rightarrow> this
         | Some k \<Rightarrow>
             (let st = pc_get (classPenaltyStats this) k in
              if str_includes c ''UNFULFILLED'' then
                this\<lparr>classPenaltyStats :=
                  pc_set k (st\<lparr>cls_unfulfilledCount := cls_unfulfilledCount st + 1,
                               cls_unfulfilledCost := cls_unfulfilledCost st + amt\<rparr>)
                    (classPenaltyStats this)\<rparr>
              else if str_includes c ''CAPACITY'' \<or> str_includes c ''OVERFLOW'' then
                this\<lparr>classPenaltyStats :=
                  pc_set k (st\<lparr>cls_overflowCount := cls_overflowCount st + 1,
                               cls_overflowCost := cls_overflowCost st + amt\<rparr>)
                    (classPenaltyStats this)\<rparr>
              else this))"

text \<open>\<open>Object.values(this.classPenaltyStats).reduce((sum, s) => sum + s.overflowCost, 0)\<close>\<close>

definition getTotalOverflowCost :: "AdaptiveEngine \<Rightarrow> jsnum" where
  "getTotalOverflowCost this =
     foldl (\<lambda>sum s. sum + cls_overflowCost s) (Fin 0)
       (map (pc_get (classPenaltyStats this)) KIT_CLASSES)"

definition takeDailySnapshot :: "AdaptiveEngine \<Rightarrow> int \<Rightarrow> AdaptiveEngine" where
  "takeDailySnapshot this d =
     this\<lparr>dailySnapshots := dailySnapshots this @
       [\<lparr>snap_day = d,
         economyUnfulfilled = cls_unfulfilledCost (economy (classPenaltyStats this)),
         totalOverflow = getTotalOverflowCost this\<rparr>]\<rparr>"

text \<open>The global mode switching is commented out in the source: the body is empty.\<close>

definition analyzeAndAdapt :: "AdaptiveEngine \<Rightarrow> int \<Rightarrow> int \<Rightarrow> AdaptiveEngine" where
  "analyzeAndAdapt this currentDay currentHour = this"

text \<open>The new state of one airport's entry: the risk score moves by the type of the
  penalty, and then decays.\<close>

definition adjustPerformance :: "PenaltyRecord \<Rightarrow> AirportPerformance \<Rightarrow> AirportPerformance" where
  "adjustPerformance rec perf =
     (let perf' =
            (if pr_type rec = INVENTORY_EXCEEDS_CAPACITY then
               perf\<lparr>overflowCount := overflowCount perf + 1,
                    lastOverflowDay := pr_day rec,
                    riskScore := Math_min (Fin 1.0) (riskScore perf + Fin 0.1)\<rparr>
             else if pr_type rec = FLIGHT_UNFULFILLED then
               perf\<lparr>unfulfilledCount := unfulfilledCount perf + 1,
                    riskScore := Math_max (Fin 0.1) (riskScore perf - Fin 0.02)\<rparr>
             else perf)
      in perf'\<lparr>riskScore := riskScore perf' * Fin 0.99\<rparr>)"

definition updateAirportPerformance :: "AdaptiveEngine \<Rightarrow> string \<Rightarrow> PenaltyRecord \<Rightarrow> AdaptiveEngine" where
  "updateAirportPerformance this airport rec =
     (let perf =
            (case airportPerformance this airport of
               None \<Rightarrow> \<lparr>overflowCount = 0, unfulfilledCount = 0, lastOverflowDay = - 1,
                         riskScore = Fin 0.5\<rparr>
             | Some p \<Rightarrow> p)
      in this\<lparr>airportPerformance := (airportPerformance this)(airport \<mapsto> adjustPerformance rec perf)\<rparr>)"

text \<open>The body of the loop of \<open>recordPenalties\<close>, on the running round total and the
  engine.\<close>

definition recordOne :: "int \<Rightarrow> int \<Rightarrow> jsnum \<times> AdaptiveEngine \<Rightarrow> Penalty \<Rightarrow> jsnum \<times> AdaptiveEngine" where
  "recordOne d h acc p =
     (let roundTotal = fst acc + penalty p;
          this = snd acc;
          parsed = parseReason (reason p);
          rec = \<lparr>pr_day = d, pr_hour = h, pr_type = classifyPenalty (code p),
                 pr_amount = penalty p, pr_airportCode = fst parsed, pr_kitClass = snd parsed\<rparr>;
          this1 = this\<lparr>penaltyHistory := penaltyHistory this @ [rec]\<rparr>;
          this2 = (case pr_airportCode rec of
                     Some airport \<Rightarrow> updateAirportPerformance this1 airport rec
                   | None \<Rightarrow> this1)
      in (roundTotal, updateClassPenaltyStats this2 (code p) (penalty p) (pr_kitClass rec)))"

text \<open>\<open>while (xs.length > n) xs.shift()\<close>\<close>

fun shiftDownTo :: "nat \<Rightarrow> 'a list \<Rightarrow> 'a list" where
  "shiftDownTo n [] = []"
| "shiftDownTo n (x # xs) = (if n < length (x # xs) then shiftDownTo n xs else x # xs)"

definition recordPenalties :: "AdaptiveEngine \<Rightarrow> Penalty list \<Rightarrow> int \<Rightarrow> int \<Rightarrow> AdaptiveEngine" where
  "recordPenalties this penalties d h =
     (let (roundTotal, this1) = foldl (recordOne d h) (Fin 0, this) penalties;
          this2 = this1\<lparr>roundPenalties := roundPenalties this1 @ [roundTotal]\<rparr>;
          this3 = this2\<lparr>penaltyHistory := shiftDownTo (HISTORY_WINDOW * 24) (penaltyHistory this2),
                       roundPenalties := shiftDownTo TREND_WINDOW (roundPenalties this2)\<rparr>;
          this4 = (if h = 0 \<and> 0 < d then takeDailySnapshot this3 (d - 1) else this3)
      in analyzeAndAdapt this4 d h)"

definition getAirportRiskScore :: "AdaptiveEngine \<Rightarrow> string \<Rightarrow> jsnum" where
  "getAirportRiskScore this airport =
     (case airportPerformance this airport of
        None \<Rightarrow> Fin 0.5
      | Some perf \<Rightarrow> riskScore perf)"

subsection \<open>The load-factor controller\<close>

text \<open>\<open>suggestLoadFactorAdjustment\<close> returns a number and may update the engine.\<close>

definition suggestLoadFactorAdjustment :: "AdaptiveEngine \<Rightarrow> int \<Rightarrow> jsnum \<times> AdaptiveEngine" where
  "suggestLoadFactorAdjustment this currentDay =
     (if currentDay < 3 then (Fin 0, this)
      else if currentDay = lastAdjustmentDay this then (economy (loadFactorAdjustments this), this)
      else
        (let MAX_DAILY_ADJUSTMENT = Fin 0.02;
             MAX_TOTAL_ADJUSTMENT = Fin 0.10;
             UNFULFILLED_THRESHOLD = Fin 500000;
             OVERFLOW_THRESHOLD = Fin 10000;
             economyUnfulfilledRate =
               cls_unfulfilledCost (economy (classPenaltyStats this)) / Fin (of_int currentDay);
             overflowRate = getTotalOverflowCost this / Fin (of_int currentDay);
             currentAdjustment = economy (loadFactorAdjustments this)
         in if jge (Math_abs currentAdjustment) MAX_TOTAL_ADJUSTMENT then (currentAdjustment, this)
            else
              (let adjustment =
                     (if jgt economyUnfulfilledRate UNFULFILLED_THRESHOLD \<and>
                         jlt overflowRate OVERFLOW_THRESHOLD
                      then MAX_DAILY_ADJUSTMENT
                      else if jgt overflowRate (OVERFLOW_THRESHOLD * Fin 5)
                      then Fin 0 - MAX_DAILY_ADJUSTMENT
                      else Fin 0);
                   newTotal = currentAdjustment + adjustment;
                   bounded =
                     (if jgt newTotal MAX_TOTAL_ADJUSTMENT
                      then MAX_TOTAL_ADJUSTMENT - currentAdjustment
                      else if jlt newTotal (Fin 0 - MAX_TOTAL_ADJUSTMENT)
                      then (Fin 0 - MAX_TOTAL_ADJUSTMENT) - currentAdjustment
                      else adjustment);
                   this' =
                     (if \<not> jeq bounded (Fin 0)
                      then this\<lparr>loadFactorAdjustments :=
                                  (loadFactorAdjustments this)
                                    \<lparr>economy := economy (loadFactorAdjustments this) + bounded\<rparr>,
                                lastAdjustmentDay := currentDay\<rparr>
                      else this)
               in (economy (loadFactorAdjustments this'), this'))))"

text \<open>A call of the engine from the driver, and the engine after a sequence of calls.\<close>

datatype engine_call =
  RecordPenalties "Penalty list" int int
| SuggestLoadFactorAdjustment int

fun callDay :: "engine_call \<Rightarrow> int" where
  "callDay (RecordPenalties ps d h) = d"
| "callDay (SuggestLoadFactorAdjustment d) = d"

fun perform :: "AdaptiveEngine \<Rightarrow> engine_call \<Rightarrow> AdaptiveEngine" where
  "perform this (RecordPenalties ps d h) = recordPenalties this ps d h"
| "perform this (SuggestLoadFactorAdjustment d) = snd (suggestLoadFactorAdjustment this d)"

definition runCalls :: "engine_call list \<Rightarrow> AdaptiveEngine" where
  "runCalls calls = foldl perform newAdaptiveEngine calls"

text \<open>The penalties that a call hands to the engine, and the invariant of the per-airport
  map: every stored risk score is a finite number in the interval from 0 (excluded)
  to 1.\<close>

fun penaltiesOf :: "engine_call \<Rightarrow> Penalty list" where
  "penaltiesOf (RecordPenalties ps d h) = ps"
| "penaltiesOf (SuggestLoadFactorAdjustment d) = []"

definition riskScoresBounded :: "AdaptiveEngine \<Rightarrow> bool" where
  "riskScoresBounded this =
     (\<forall>a perf. airportPerformance this a = Some perf \<longrightarrow>
        (\<exists>r. riskScore perf = Fin r \<and> 0 < r \<and> r \<le> 1))"

section \<open>NetworkCalibrator (first module of calibrator.ts)\<close>

text \<open>
  The calibrator holds the three collections it was constructed with; its methods are
  functions of them.  A \<open>Map\<close> is an association list in insertion order, its keys
  distinct: \<open>get\<close> is \<open>map_of\<close> and \<open>values()\<close> is \<open>map snd\<close>.  A thrown \<open>Error\<close> is
  the left summand of the result.
\<close>

datatype error = Error string

text \<open>\<open>SANITY_BOUNDS\<close>\<close>

definition economyLoadFactor_min :: jsnum where "economyLoadFactor_min = Fin 0.50"
definition economyLoadFactor_max :: jsnum where "economyLoadFactor_max = Fin 0.90"
definition purchaseThreshold_min :: jsnum where "purchaseThreshold_min = Fin 0.05"
definition purchaseThreshold_max :: jsnum where "purchaseThreshold_max = Fin 0.90"
definition demandEstimate_min :: PerClassAmount where "demandEstimate_min = amount 2 5 3 30"
definition demandEstimate_max :: PerClassAmount where "demandEstimate_max = amount 100 200 150 600"

text \<open>A whole number inside a template literal.\<close>

fun showNat :: "nat \<Rightarrow> string" where
  "showNat n =
     (if n < 10 then [''0123456789'' ! n]
      else showNat (n div 10) @ [''0123456789'' ! (n mod 10)])"

definition spokesOf :: "(string \<times> Airport) list \<Rightarrow> Airport list" where
  "spokesOf airports = filter (\<lambda>a. \<not> isHub a) (map snd airports)"

text \<open>The loop over the spokes, on the pair of the running average and the running
  minimum; \<open>n\<close> is \<open>spokes.length\<close>.\<close>

definition addSpoke :: "nat \<Rightarrow> PerClassAmount \<times> PerClassAmount \<Rightarrow> Airport \<Rightarrow> PerClassAmount \<times> PerClassAmount" where
  "addSpoke n acc spoke =
     foldl (\<lambda>(avg, mn) k.
              (pc_set k (pc_get avg k + pc_get (capacity spoke) k / num n) avg,
               pc_set k (Math_min (pc_get mn k) (pc_get (capacity spoke) k)) mn))
       acc KIT_CLASSES"

text \<open>The counters \<open>flightsPerWeekday\<close>: for every plan, for \<open>d\<close> from 0 to 6.\<close>

definition countWeekdays :: "FlightPlan list \<Rightarrow> nat list" where
  "countWeekdays plans =
     foldl (\<lambda>counts plan.
              foldl (\<lambda>counts d.
                       if weekdayActive (weekdays plan) (int d) then counts[d := counts ! d + 1]
                       else counts)
                counts [0..<7])
       (replicate 7 0) plans"

definition analyzeTopology :: "(string \<times> Airport) list \<Rightarrow> FlightPlan list \<Rightarrow> error + NetworkTopology" where
  "analyzeTopology airports plans =
     (let spokes = spokesOf airports in
      case map_of airports ''HUB1'' of
        None \<Rightarrow> Inl (Error ''HUB1 not found in airports data'')
      | Some hub \<Rightarrow>
          (let (avgSpoke, minSpoke) =
                 foldl (addSpoke (length spokes))
                   (amount 0 0 0 0,
                    \<lparr>first = PInf, business = PInf, premiumEconomy = PInf, economy = PInf\<rparr>)
                   spokes;
               flightsPerWeekday = countWeekdays plans;
               avgFlightsPerDay = num (foldl (+) 0 flightsPerWeekday) / Fin 7;
               ratio =
                 foldl (\<lambda>r k. pc_set k (if jgt (pc_get avgSpoke k) (Fin 0)
                                         then pc_get (capacity hub) k / pc_get avgSpoke k
                                         else Fin 1) r)
                   (amount 0 0 0 0) KIT_CLASSES
           in Inr \<lparr>hubCode = ''HUB1'',
                   spokeCount = length spokes,
                   totalFlightsPerDay = avgFlightsPerDay,
                   avgFlightsPerSpoke =
                     avgFlightsPerDay / Math_max (Fin 1) (num (length spokes)) / Fin 2,
                   hubCapacity = capacity hub,
                   avgSpokeCapacity = avgSpoke,
                   minSpokeCapacity = minSpoke,
                   capacityRatio = ratio\<rparr>))"

definition calculateAvgTransportCost ::
  "(string \<times> Airport) list \<Rightarrow> (string \<times> Aircraft) list \<Rightarrow> jsnum \<Rightarrow> jsnum" where
  "calculateAvgTransportCost airports aircraft avgDist =
     (let spokes = spokesOf airports;
          avgLoadingCost =
            (case map_of airports ''HUB1'' of
               None \<Rightarrow> Fin 2.0
             | Some hub \<Rightarrow> (case loadingCost hub of None \<Rightarrow> Fin 2.0 | Some c \<Rightarrow> economy c));
          aircraftArray = map snd aircraft;
          avgFuelRate =
            (if 0 < length aircraftArray
             then foldl (\<lambda>sum a. sum + costPerKgPerKm a) (Fin 0) aircraftArray
                    / num (length aircraftArray)
             else Fin 0.001);
          avgFuelCost = avgDist * avgFuelRate * Fin 1.5;
          avgProcessingCost =
            (if 0 < length spokes
             then foldl (\<lambda>sum s. sum + (case processingCost s of None \<Rightarrow> Fin 4.0
                                                                | Some c \<Rightarrow> economy c))
                    (Fin 0) spokes
                    / num (length spokes)
             else Fin 4.0)
      in avgLoadingCost + avgFuelCost + avgProcessingCost)"

definition analyzeEconomics ::
  "(string \<times> Airport) list \<Rightarrow> (string \<times> Aircraft) list \<Rightarrow> FlightPlan list \<Rightarrow> RouteEconomics" where
  "analyzeEconomics airports aircraft plans =
     (let distances = filter (\<lambda>d. jgt d (Fin 0)) (map distanceKm plans) in
      if length distances = 0 then
        \<lparr>avgDistance = Fin 3000, minDistance = Fin 500, maxDistance = Fin 6000,
         distanceStdDev = Fin 1500, avgPenaltyPerEconomyKit = Fin 4.5,
         avgTransportCost = Fin 4.0, penaltyCostRatio = Fin 1.125\<rparr>
      else
        (let avgDist = foldl (+) (Fin 0) distances / num (length distances);
             minDist = foldl Math_min PInf distances;
             maxDist = foldl Math_max NInf distances;
             variance =
               foldl (\<lambda>sum d. sum + (d - avgDist) * (d - avgDist)) (Fin 0) distances
                 / num (length distances);
             stdDev = Math_sqrt variance;
             avgPenalty = Fin 0.003 * avgDist * Fin 50;
             transportCost = calculateAvgTransportCost airports aircraft avgDist
         in \<lparr>avgDistance = avgDist, minDistance = minDist, maxDistance = maxDist,
              distanceStdDev = stdDev, avgPenaltyPerEconomyKit = avgPenalty,
              avgTransportCost = transportCost,
              penaltyCostRatio = avgPenalty / transportCost\<rparr>))"

text \<open>The constant \<open>economicOptimal\<close> of \<open>calculateEconomyLoadFactor\<close>, as a function of
  \<open>R\<close>, the penalty/cost ratio.\<close>

definition economicOptimal :: "jsnum \<Rightarrow> jsnum" where
  "economicOptimal R = (if jge R (Fin 1.0) then Fin 1.0 else Fin 0.5 + Fin 0.5 * R)"

definition calculateEconomyLoadFactor :: "RouteEconomics \<Rightarrow> NetworkTopology \<Rightarrow> EconomyLoadFactorConfig" where
  "calculateEconomyLoadFactor econ topo =
     (let R = penaltyCostRatio econ;
          capacityFactor = Math_min (Fin 1.0) (economy (capacityRatio topo) / Fin 15);
          baseline0 = Fin 0.55 + (economicOptimal R - Fin 0.5) * Fin 0.35 + capacityFactor * Fin 0.10;
          baseline1 = Math_max economyLoadFactor_min (Math_min economyLoadFactor_max baseline0);
          baseline2 = Math_round (baseline1 * Fin 100) / Fin 100;
          avgDailyDemandPerSpoke = (totalFlightsPerDay topo / num (spokeCount topo)) * Fin 200;
          daysBuffer = economy (avgSpokeCapacity topo) / Math_max (Fin 1) avgDailyDemandPerSpoke
      in \<lparr>baseline = baseline2,
           warningThreshold = (if jlt daysBuffer (Fin 1.5) then Fin 0.50 else Fin 0.60),
           dangerThreshold = (if jlt daysBuffer (Fin 1.5) then Fin 0.70 else Fin 0.80),
           minFactor = Fin 0.50,
           maxFactor = Math_min (baseline2 + Fin 0.10) (Fin 0.90)\<rparr>)"

text \<open>\<open>estimateDemand\<close>, in double arithmetic: every quotient, every addition to the
  running averages and the product with the load factor are rounded.\<close>

definition estimateDemand :: "(string \<times> Aircraft) list \<Rightarrow> PerClassAmount" where
  "estimateDemand aircraft =
     (let aircraftArray = map snd aircraft in
      if length aircraftArray = 0 then amount 10 50 25 200
      else
        (let avgSeats =
               foldl (\<lambda>avg a.
                        \<lparr>first = dbl (first avg + dbl (first (seats a) / num (length aircraftArray))),
                         business =
                           dbl (business avg + dbl (business (seats a) / num (length aircraftArray))),
                         premiumEconomy =
                           dbl (premiumEconomy avg
                                + dbl (premiumEconomy (seats a) / num (length aircraftArray))),
                         economy =
                           dbl (economy avg + dbl (economy (seats a) / num (length aircraftArray)))\<rparr>)
                 (amount 0 0 0 0) aircraftArray;
             PASSENGER_LOAD_FACTOR = dbl (Fin 0.80);
             estimate = (\<lambda>k. Math_max (pc_get demandEstimate_min k)
                               (Math_min (pc_get demandEstimate_max k)
                                  (Math_ceil (dbl (pc_get avgSeats k * PASSENGER_LOAD_FACTOR)))))
         in \<lparr>first = estimate First, business = estimate Business,
              premiumEconomy = estimate PremiumEconomy, economy = estimate Economy\<rparr>))"

definition calculateDestinationBuffers :: "NetworkTopology \<Rightarrow> DestinationBuffers" where
  "calculateDestinationBuffers topo =
     (let economyRatio = economy (capacityRatio topo) in
      \<lparr>db_hub = Fin 0.95,
       db_economy =
         Math_max (Fin 0.65) (Math_min (Fin 0.80) (Fin 0.65 + (Fin 20 - economyRatio) * Fin 0.01)),
       db_premiumEconomy =
         Math_max (Fin 0.75)
           (Math_min (Fin 0.85)
              (Fin 0.75 + (Fin 20 - premiumEconomy (capacityRatio topo)) * Fin 0.005)),
       db_firstBusiness =
         Math_max (Fin 0.80)
           (Math_min (Fin 0.90) (Fin 0.80 + (Fin 20 - first (capacityRatio topo)) * Fin 0.005))\<rparr>)"

definition LEAD_TIMES :: PerClassAmount where
  "LEAD_TIMES = amount 48 36 24 12"

definition purchaseThreshold :: "NetworkTopology \<Rightarrow> PerClassAmount \<Rightarrow> kit_class \<Rightarrow> jsnum" where
  "purchaseThreshold topo estimates k =
     (let demandPerHour = (totalFlightsPerDay topo / Fin 24) * pc_get estimates k;
          demandDuringLeadTime = demandPerHour * pc_get LEAD_TIMES k;
          safetyMultiplier = Fin 1.5;
          rawThreshold = (demandDuringLeadTime * safetyMultiplier) / pc_get (hubCapacity topo) k
      in Math_max purchaseThreshold_min (Math_min purchaseThreshold_max rawThreshold))"

definition calculatePurchaseThresholds :: "NetworkTopology \<Rightarrow> PerClassAmount \<Rightarrow> PerClassAmount" where
  "calculatePurchaseThresholds topo estimates =
     foldl (\<lambda>thresholds k. pc_set k (purchaseThreshold topo estimates k) thresholds)
       (amount 0 0 0 0) KIT_CLASSES"

text \<open>\<open>calculateConfidence\<close> also reads \<open>this.aircraft.size\<close> and
  \<open>this.flightPlans.length\<close>.\<close>

definition calculateConfidence :: "NetworkTopology \<Rightarrow> RouteEconomics \<Rightarrow> nat \<Rightarrow> nat \<Rightarrow> jsnum" where
  "calculateConfidence topo econ aircraftSize plansLength =
     (let c0 = Fin 1.0;
          c1 = (if spokeCount topo < 5 \<or> 100 < spokeCount topo then c0 - Fin 0.1 else c0);
          c2 = (if jgt (distanceStdDev econ) (avgDistance econ * Fin 0.5) then c1 - Fin 0.1 else c1);
          c3 = (if aircraftSize = 0 then c2 - Fin 0.2 else c2);
          c4 = (if plansLength < 50 then c3 - Fin 0.2 else c3)
      in Math_max (Fin 0.3) c4)"

definition calibrate ::
  "(string \<times> Airport) list \<Rightarrow> (string \<times> Aircraft) list \<Rightarrow> FlightPlan list
     \<Rightarrow> error + DatasetCharacteristics" where
  "calibrate airports aircraft plans =
     (case analyzeTopology airports plans of
        Inl e \<Rightarrow> Inl e
      | Inr topo \<Rightarrow>
          (let econ = analyzeEconomics airports aircraft plans;
               loadFactor = calculateEconomyLoadFactor econ topo;
               estimates = estimateDemand aircraft;
               buffers = calculateDestinationBuffers topo;
               thresholds = calculatePurchaseThresholds topo estimates;
               w1 = (if spokeCount topo < 5
                     then [''Small network detected: only '' @ showNat (spokeCount topo) @ '' spokes'']
                     else []);
               w2 = (if 100 < spokeCount topo
                     then w1 @ [''Large network detected: '' @ showNat (spokeCount topo) @ '' spokes'']
                     else w1);
               w3 = (if jgt (distanceStdDev econ) (avgDistance econ * Fin 0.6)
                     then w2 @ [''High distance variance - may need route-specific adjustments'']
                     else w2);
               conf = calculateConfidence topo econ (length aircraft) (length plans)
           in Inr \<lparr>topology = topo, economics = econ, economyLoadFactor = loadFactor,
                   demandEstimates = estimates, destinationBuffers = buffers,
                   purchaseThresholdPercents = thresholds, confidence = conf,
                   warnings = w3\<rparr>))"

text \<open>The hub of the hub-only scenario of the specification.\<close>

definition scenarioHub :: Airport where
  "scenarioHub =
     \<lparr>isHub = True, capacity = amount 1000 3000 1500 20000,
      loadingCost = None, processingCost = None\<rparr>"

text \<open>A run of observations on which the rounding of the doubles decides the updated
  first-class estimate: 25 flights with 100 first-class passengers, then 10 with 200.\<close>

definition mixedObservations :: "PerClassAmount list" where
  "mixedObservations = replicate 25 (amount 100 50 25 200) @ replicate 10 (amount 200 50 25 200)"

section \<open>Arithmetic on finite numbers\<close>

lemma Fin_arith [simp]:
  "Fin a + Fin b = Fin (a + b)"
  "Fin a - Fin b = Fin (a - b)"
  "Fin a * Fin b = Fin (a * b)"
  "b \<noteq> 0 \<Longrightarrow> Fin a / Fin b = Fin (a / b)"
  by (simp_all add: plus_jsnum_def minus_jsnum_def times_jsnum_def divide_jsnum_def)

lemma Fin_compare [simp]:
  "jgt (Fin a) (Fin b) = (b < a)"
  "jeq (Fin a) (Fin b) = (a = b)"
  "jle (Fin a) (Fin b) = (a \<le> b)"
  "jge (Fin a) (Fin b) = (b \<le> a)"
  by (auto simp: jgt_def jeq_def jle_def jge_def)

lemma Fin_minmax [simp]:
  "Math_min (Fin a) (Fin b) = Fin (min a b)"
  "Math_max (Fin a) (Fin b) = Fin (max a b)"
  by (auto simp: Math_min_def Math_max_def)

lemma is_finite_Fin: "is_finite a \<Longrightarrow> \<exists>x. a = Fin x"
  by (cases a) auto

lemma pc_get_set: "pc_get (pc_set k v p) k' = (if k = k' then v else pc_get p k')"
  by (cases k; cases k'; simp)

lemma sum_list_const:
  "\<forall>x\<in>set xs. f x = (c::real) \<Longrightarrow> sum_list (map f xs) = c * real (length xs)"
  by (induction xs) (simp_all add: algebra_simps)

lemma foldl_filter_add:
  "foldl (\<lambda>(d::jsnum) x. if P x then d + g x else d) a xs = foldl (+) a (map g (filter P xs))"
  by (induction xs arbitrary: a) simp_all

section \<open>DemandForecaster: the aggregate statistics\<close>

lemma count_record [simp]:
  "ds_count (demandStats (recordObservedDemand s p)) = ds_count (demandStats s) + 1"
  by (simp add: recordObservedDemand_def KIT_CLASSES_def accumulate_def Let_def)

lemma sum_record [simp]:
  "pc_get (ds_sum (demandStats (recordObservedDemand s p))) k =
     pc_get (ds_sum (demandStats s)) k + pc_get p k"
  by (cases k; simp add: recordObservedDemand_def KIT_CLASSES_def accumulate_def Let_def)

lemma sumSq_record [simp]:
  "pc_get (ds_sumSq (demandStats (recordObservedDemand s p))) k =
     pc_get (ds_sumSq (demandStats s)) k + pc_get p k * pc_get p k"
  by (cases k; simp add: recordObservedDemand_def KIT_CLASSES_def accumulate_def Let_def)

lemma min_record [simp]:
  "pc_get (ds_min (demandStats (recordObservedDemand s p))) k =
     Math_min (pc_get (ds_min (demandStats s)) k) (pc_get p k)"
  by (cases k; simp add: recordObservedDemand_def KIT_CLASSES_def accumulate_def Let_def)

lemma max_record [simp]:
  "pc_get (ds_max (demandStats (recordObservedDemand s p))) k =
     Math_max (pc_get (ds_max (demandStats s)) k) (pc_get p k)"
  by (cases k; simp add: recordObservedDemand_def KIT_CLASSES_def accumulate_def Let_def)

lemma characteristics_record [simp]:
  "characteristics (recordObservedDemand s p) = characteristics s"
  by (simp add: recordObservedDemand_def)

lemma window_record:
  "pc_get (observedDemands (recordObservedDemand s p)) k =
     (if jgt (pc_get p k) (Fin 0)
      then (let pushed = pc_get (observedDemands s) k @ [pc_get p k]
            in if 100 < length pushed then tl pushed else pushed)
      else pc_get (observedDemands s) k)"
  by (cases k; simp add: recordObservedDemand_def KIT_CLASSES_def pushObserved_def Let_def)

lemma count_recordAll:
  "ds_count (demandStats (foldl recordObservedDemand s xs)) = ds_count (demandStats s) + length xs"
  by (induction xs arbitrary: s) simp_all

lemma characteristics_recordAll [simp]:
  "characteristics (foldl recordObservedDemand s xs) = characteristics s"
  by (induction xs arbitrary: s) simp_all

lemma sum_recordAll:
  "\<forall>p\<in>set xs. is_finite (pc_get p k) \<Longrightarrow> pc_get (ds_sum (demandStats s)) k = Fin a \<Longrightarrow>
   pc_get (ds_sum (demandStats (foldl recordObservedDemand s xs))) k =
     Fin (a + sum_list (map (\<lambda>p. fin_val (pc_get p k)) xs))"
proof (induction xs arbitrary: s a)
  case Nil
  then show ?case by simp
next
  case (Cons p xs)
  from Cons.prems(1) obtain v where v: "pc_get p k = Fin v"
    by (cases "pc_get p k") auto
  have "pc_get (ds_sum (demandStats (recordObservedDemand s p))) k = Fin (a + v)"
    using Cons.prems(2) v by simp
  from Cons.IH[OF _ this] Cons.prems(1) v show ?case
    by (simp add: add.assoc)
qed

lemma sumSq_recordAll:
  "\<forall>p\<in>set xs. is_finite (pc_get p k) \<Longrightarrow> pc_get (ds_sumSq (demandStats s)) k = Fin a \<Longrightarrow>
   pc_get (ds_sumSq (demandStats (foldl recordObservedDemand s xs))) k =
     Fin (a + sum_list (map (\<lambda>p. fin_val (pc_get p k) * fin_val (pc_get p k)) xs))"
proof (induction xs arbitrary: s a)
  case Nil
  then show ?case by simp
next
  case (Cons p xs)
  from Cons.prems(1) obtain v where v: "pc_get p k = Fin v"
    by (cases "pc_get p k") auto
  have "pc_get (ds_sumSq (demandStats (recordObservedDemand s p))) k = Fin (a + v * v)"
    using Cons.prems(2) v by simp
  from Cons.IH[OF _ this] Cons.prems(1) v show ?case
    by (simp add: add.assoc)
qed

lemma init_stats [simp]:
  "ds_count (demandStats (newDemandForecaster plans chars)) = 0"
  "pc_get (ds_sum (demandStats (newDemandForecaster plans chars))) k = Fin 0"
  "pc_get (ds_sumSq (demandStats (newDemandForecaster plans chars))) k = Fin 0"
  "characteristics (newDemandForecaster plans chars) = chars"
  by (cases k; simp add: newDemandForecaster_def amount_def)+

lemma mean_recordAll:
  assumes "\<forall>p\<in>set xs. is_finite (pc_get p k)" and "xs \<noteq> []"
  shows "getObservedMean (foldl recordObservedDemand (newDemandForecaster plans chars) xs) k =
     Fin (sum_list (map (\<lambda>p. fin_val (pc_get p k)) xs) / real (length xs))"
  using sum_recordAll[OF assms(1), of "newDemandForecaster plans chars" 0] assms(2)
  by (simp add: getObservedMean_def count_recordAll num_def)

text \<open>
  Claim C8.  After any sequence of recorded observations whose values for a kit class are
  finite numbers, \<open>getObservedVariance\<close> of that class is 0 when fewer than two
  observations were recorded, and otherwise the population variance of all the recorded
  values: the mean of the squares minus the square of the mean.
\<close>

theorem getObservedVariance_population:
  assumes "\<forall>p\<in>set xs. is_finite (pc_get p k)"
  shows "getObservedVariance (foldl recordObservedDemand (newDemandForecaster plans chars) xs) k =
     (if length xs < 2 then Fin 0
      else Fin (sum_list (map (\<lambda>p. fin_val (pc_get p k) * fin_val (pc_get p k)) xs) / real (length xs)
                - (sum_list (map (\<lambda>p. fin_val (pc_get p k)) xs) / real (length xs)) *
                  (sum_list (map (\<lambda>p. fin_val (pc_get p k)) xs) / real (length xs))))"
  using sum_recordAll[OF assms, of "newDemandForecaster plans chars" 0]
        sumSq_recordAll[OF assms, of "newDemandForecaster plans chars" 0]
  by (auto simp: getObservedVariance_def getObservedMean_def count_recordAll num_def Let_def)

theorem getObservedVariance_population_witness:
  "getObservedVariance (foldl recordObservedDemand (newDemandForecaster [] None)
      [amount 1 2 3 4, amount 3 2 1 0]) First = Fin 1"
  using getObservedVariance_population[of "[amount 1 2 3 4, amount 3 2 1 0]" First "[]" None]
  by (simp add: amount_def)

text \<open>
  Claim C9, as the code has it.  \<open>recordObservedDemand\<close> adds every class's count to the
  aggregate statistics (count, sum, sum of squares, minimum, maximum) and clears the cached
  averages, but it appends the count to the class's observation window only when the count
  is greater than 0; a window that held at most 100 entries then holds the last 100
  entries of the extended window.
\<close>

theorem recordObservedDemand_effect:
  assumes "length (pc_get (observedDemands s) k) \<le> 100"
  shows "pc_get (observedDemands (recordObservedDemand s p)) k =
           (if jgt (pc_get p k) (Fin 0)
            then drop (length (pc_get (observedDemands s) k) + 1 - 100)
                   (pc_get (observedDemands s) k @ [pc_get p k])
            else pc_get (observedDemands s) k)
         \<and> length (pc_get (observedDemands (recordObservedDemand s p)) k) \<le> 100
         \<and> ds_count (demandStats (recordObservedDemand s p)) = ds_count (demandStats s) + 1
         \<and> pc_get (ds_sum (demandStats (recordObservedDemand s p))) k =
             pc_get (ds_sum (demandStats s)) k + pc_get p k
         \<and> pc_get (ds_sumSq (demandStats (recordObservedDemand s p))) k =
             pc_get (ds_sumSq (demandStats s)) k + pc_get p k * pc_get p k
         \<and> pc_get (ds_min (demandStats (recordObservedDemand s p))) k =
             Math_min (pc_get (ds_min (demandStats s)) k) (pc_get p k)
         \<and> pc_get (ds_max (demandStats (recordObservedDemand s p))) k =
             Math_max (pc_get (ds_max (demandStats s)) k) (pc_get p k)
         \<and> cachedAverages (recordObservedDemand s p) = None"
proof -
  let ?w = "pc_get (observedDemands s) k"
  have tl_drop: "tl (?w @ [pc_get p k]) = drop 1 (?w @ [pc_get p k])"
    by (metis drop_Suc drop_0 One_nat_def)
  have "length ?w = 100 \<or> length ?w < 100"
    using assms by linarith
  then have win: "pc_get (observedDemands (recordObservedDemand s p)) k =
           (if jgt (pc_get p k) (Fin 0)
            then drop (length ?w + 1 - 100) (?w @ [pc_get p k])
            else ?w)"
    unfolding window_record Let_def using tl_drop by auto
  have len: "length (pc_get (observedDemands (recordObservedDemand s p)) k) \<le> 100"
    unfolding win using assms by auto
  have cache: "cachedAverages (recordObservedDemand s p) = None"
    by (simp add: recordObservedDemand_def)
  show ?thesis
    using win len cache by simp
qed

theorem recordObservedDemand_effect_witness:
  "pc_get (observedDemands (recordObservedDemand (newDemandForecaster [] None) (amount 0 2 3 4))) Economy
     = [Fin 4]
   \<and> pc_get (ds_sum (demandStats (recordObservedDemand (newDemandForecaster [] None) (amount 0 2 3 4)))) Economy
     = Fin 4"
  using recordObservedDemand_effect[of "newDemandForecaster [] None" Economy "amount 0 2 3 4"]
  by (simp add: newDemandForecaster_def amount_def)

text \<open>
  Claim C9 as stated fails for a class whose count is 0: the observation is counted in the
  aggregate, but nothing is appended to the window of that class.
\<close>

theorem recordObservedDemand_zero_counterexample:
  "pc_get (observedDemands (recordObservedDemand (newDemandForecaster [] None) (amount 0 2 3 4))) First = []
   \<and> ds_count (demandStats (recordObservedDemand (newDemandForecaster [] None) (amount 0 2 3 4))) = 1"
proof (rule conjI)
  show "pc_get (observedDemands (recordObservedDemand (newDemandForecaster [] None) (amount 0 2 3 4))) First = []"
    by (simp add: recordObservedDemand_def KIT_CLASSES_def pushObserved_def
          newDemandForecaster_def amount_def Let_def)
  show "ds_count (demandStats (recordObservedDemand (newDemandForecaster [] None) (amount 0 2 3 4))) = 1"
    by simp
qed

section \<open>DemandForecaster: updated estimates and recalibration\<close>

subsection \<open>The roundings of two runs\<close>

lemma nearestDouble_by_parts:
  assumes "0 < x" and "binaryExponent x = e" and "pow2 (e - 52) = u"
    and "roundHalfEven (x / u) = m"
  shows "nearestDouble x = of_int m * u"
  using assms by (simp add: nearestDouble_def Let_def)

lemma double_13: "nearestDouble (13 / 10) = 5854679515581645 / 4503599627370496"
proof -
  have "nearestDouble (13 / 10) = of_int 5854679515581645 * (1 / 4503599627370496)"
  proof (rule nearestDouble_by_parts)
    show "0 < (13 / 10 :: real)" by simp
    show "binaryExponent (13 / 10) = 0" by (simp add: binaryExponent_def)
    show "pow2 (0 - 52) = 1 / 4503599627370496" by (simp add: pow2_def)
    show "roundHalfEven ((13 / 10) / (1 / 4503599627370496)) = 5854679515581645" by (simp add: roundHalfEven_def Let_def)
  qed
  then show ?thesis by simp
qed

lemma double_07: "nearestDouble (7 / 10) = 3152519739159347 / 4503599627370496"
proof -
  have "nearestDouble (7 / 10) = of_int 6305039478318694 * (1 / 9007199254740992)"
  proof (rule nearestDouble_by_parts)
    show "0 < (7 / 10 :: real)" by simp
    show "binaryExponent (7 / 10) = -1" by (simp add: binaryExponent_def)
    show "pow2 (-1 - 52) = 1 / 9007199254740992" by (simp add: pow2_def)
    show "roundHalfEven ((7 / 10) / (1 / 9007199254740992)) = 6305039478318694" by (simp add: roundHalfEven_def Let_def)
  qed
  then show ?thesis by simp
qed

lemma double_03: "nearestDouble (3 / 10) = 5404319552844595 / 18014398509481984"
proof -
  have "nearestDouble (3 / 10) = of_int 5404319552844595 * (1 / 18014398509481984)"
  proof (rule nearestDouble_by_parts)
    show "0 < (3 / 10 :: real)" by simp
    show "binaryExponent (3 / 10) = -2" by (simp add: binaryExponent_def)
    show "pow2 (-2 - 52) = 1 / 18014398509481984" by (simp add: pow2_def)
    show "roundHalfEven ((3 / 10) / (1 / 18014398509481984)) = 5404319552844595" by (simp add: roundHalfEven_def Let_def)
  qed
  then show ?thesis by simp
qed

lemma double_400: "nearestDouble (400) = 400"
proof -
  have "nearestDouble (400) = of_int 7036874417766400 * (1 / 17592186044416)"
  proof (rule nearestDouble_by_parts)
    show "0 < (400 :: real)" by simp
    show "binaryExponent (400) = 8" by (simp add: binaryExponent_def)
    show "pow2 (8 - 52) = 1 / 17592186044416" by (simp add: pow2_def)
    show "roundHalfEven ((400) / (1 / 17592186044416)) = 7036874417766400" by (simp add: roundHalfEven_def Let_def)
  qed
  then show ?thesis by simp
qed

lemma double_400_13: "nearestDouble (400 * (5854679515581645 / 4503599627370496)) = 520"
proof -
  have "nearestDouble (400 * (5854679515581645 / 4503599627370496)) = of_int 4573968371548160 * (1 / 8796093022208)"
  proof (rule nearestDouble_by_parts)
    show "0 < (400 * (5854679515581645 / 4503599627370496) :: real)" by simp
    show "binaryExponent (400 * (5854679515581645 / 4503599627370496)) = 9" by (simp add: binaryExponent_def)
    show "pow2 (9 - 52) = 1 / 8796093022208" by (simp add: pow2_def)
    show "roundHalfEven ((400 * (5854679515581645 / 4503599627370496)) / (1 / 8796093022208)) = 4573968371548160" by (simp add: roundHalfEven_def Let_def)
  qed
  then show ?thesis by simp
qed

lemma double_520_07: "nearestDouble (520 * (3152519739159347 / 4503599627370496)) = 364"
proof -
  have "nearestDouble (520 * (3152519739159347 / 4503599627370496)) = of_int 6403555720167424 * (1 / 17592186044416)"
  proof (rule nearestDouble_by_parts)
    show "0 < (520 * (3152519739159347 / 4503599627370496) :: real)" by simp
    show "binaryExponent (520 * (3152519739159347 / 4503599627370496)) = 8" by (simp add: binaryExponent_def)
    show "pow2 (8 - 52) = 1 / 17592186044416" by (simp add: pow2_def)
    show "roundHalfEven ((520 * (3152519739159347 / 4503599627370496)) / (1 / 17592186044416)) = 6403555720167424" by (simp add: roundHalfEven_def Let_def)
  qed
  then show ?thesis by simp
qed

lemma double_200_03: "nearestDouble (200 * (5404319552844595 / 18014398509481984)) = 60"
proof -
  have "nearestDouble (200 * (5404319552844595 / 18014398509481984)) = of_int 8444249301319680 * (1 / 140737488355328)"
  proof (rule nearestDouble_by_parts)
    show "0 < (200 * (5404319552844595 / 18014398509481984) :: real)" by simp
    show "binaryExponent (200 * (5404319552844595 / 18014398509481984)) = 5" by (simp add: binaryExponent_def)
    show "pow2 (5 - 52) = 1 / 140737488355328" by (simp add: pow2_def)
    show "roundHalfEven ((200 * (5404319552844595 / 18014398509481984)) / (1 / 140737488355328)) = 8444249301319680" by (simp add: roundHalfEven_def Let_def)
  qed
  then show ?thesis by simp
qed

lemma double_364_60: "nearestDouble (364 + 60) = 424"
proof -
  have "nearestDouble (364 + 60) = of_int 7459086882832384 * (1 / 17592186044416)"
  proof (rule nearestDouble_by_parts)
    show "0 < (364 + 60 :: real)" by simp
    show "binaryExponent (364 + 60) = 8" by (simp add: binaryExponent_def)
    show "pow2 (8 - 52) = 1 / 17592186044416" by (simp add: pow2_def)
    show "roundHalfEven ((364 + 60) / (1 / 17592186044416)) = 7459086882832384" by (simp add: roundHalfEven_def Let_def)
  qed
  then show ?thesis by simp
qed

lemma double_mean: "nearestDouble (900 / 7) = 4523704982849829 / 35184372088832"
proof -
  have "nearestDouble (900 / 7) = of_int 4523704982849829 * (1 / 35184372088832)"
  proof (rule nearestDouble_by_parts)
    show "0 < (900 / 7 :: real)" by simp
    show "binaryExponent (900 / 7) = 7" by (simp add: binaryExponent_def)
    show "pow2 (7 - 52) = 1 / 35184372088832" by (simp add: pow2_def)
    show "roundHalfEven ((900 / 7) / (1 / 35184372088832)) = 4523704982849829" by (simp add: roundHalfEven_def Let_def)
  qed
  then show ?thesis by simp
qed

lemma double_mean_13: "nearestDouble (4523704982849829 / 35184372088832 * (5854679515581645 / 4503599627370496)) = 2940408238852389 / 17592186044416"
proof -
  have "nearestDouble (4523704982849829 / 35184372088832 * (5854679515581645 / 4503599627370496)) = of_int 5880816477704778 * (1 / 35184372088832)"
  proof (rule nearestDouble_by_parts)
    show "0 < (4523704982849829 / 35184372088832 * (5854679515581645 / 4503599627370496) :: real)" by simp
    show "binaryExponent (4523704982849829 / 35184372088832 * (5854679515581645 / 4503599627370496)) = 7" by (simp add: binaryExponent_def)
    show "pow2 (7 - 52) = 1 / 35184372088832" by (simp add: pow2_def)
    show "roundHalfEven ((4523704982849829 / 35184372088832 * (5854679515581645 / 4503599627370496)) / (1 / 35184372088832)) = 5880816477704778" by (simp add: roundHalfEven_def Let_def)
  qed
  then show ?thesis by simp
qed

lemma double_mean_13_07: "nearestDouble (2940408238852389 / 17592186044416 * (3152519739159347 / 4503599627370496)) = 8233143068786689 / 70368744177664"
proof -
  have "nearestDouble (2940408238852389 / 17592186044416 * (3152519739159347 / 4503599627370496)) = of_int 8233143068786689 * (1 / 70368744177664)"
  proof (rule nearestDouble_by_parts)
    show "0 < (2940408238852389 / 17592186044416 * (3152519739159347 / 4503599627370496) :: real)" by simp
    show "binaryExponent (2940408238852389 / 17592186044416 * (3152519739159347 / 4503599627370496)) = 6" by (simp add: binaryExponent_def)
    show "pow2 (6 - 52) = 1 / 70368744177664" by (simp add: pow2_def)
    show "roundHalfEven ((2940408238852389 / 17592186044416 * (3152519739159347 / 4503599627370496)) / (1 / 70368744177664)) = 8233143068786689" by (simp add: roundHalfEven_def Let_def)
  qed
  then show ?thesis by simp
qed

lemma double_10_03: "nearestDouble (10 * (5404319552844595 / 18014398509481984)) = 3"
proof -
  have "nearestDouble (10 * (5404319552844595 / 18014398509481984)) = of_int 6755399441055744 * (1 / 2251799813685248)"
  proof (rule nearestDouble_by_parts)
    show "0 < (10 * (5404319552844595 / 18014398509481984) :: real)" by simp
    show "binaryExponent (10 * (5404319552844595 / 18014398509481984)) = 1" by (simp add: binaryExponent_def)
    show "pow2 (1 - 52) = 1 / 2251799813685248" by (simp add: pow2_def)
    show "roundHalfEven ((10 * (5404319552844595 / 18014398509481984)) / (1 / 2251799813685248)) = 6755399441055744" by (simp add: roundHalfEven_def Let_def)
  qed
  then show ?thesis by simp
qed

lemma double_sum: "nearestDouble (8233143068786689 / 70368744177664 + 3) = 8444249301319681 / 70368744177664"
proof -
  have "nearestDouble (8233143068786689 / 70368744177664 + 3) = of_int 8444249301319681 * (1 / 70368744177664)"
  proof (rule nearestDouble_by_parts)
    show "0 < (8233143068786689 / 70368744177664 + 3 :: real)" by simp
    show "binaryExponent (8233143068786689 / 70368744177664 + 3) = 6" by (simp add: binaryExponent_def)
    show "pow2 (6 - 52) = 1 / 70368744177664" by (simp add: pow2_def)
    show "roundHalfEven ((8233143068786689 / 70368744177664 + 3) / (1 / 70368744177664)) = 8444249301319681" by (simp add: roundHalfEven_def Let_def)
  qed
  then show ?thesis by simp
qed

lemma blend_400_200:
  "Math_ceil (dbl (dbl (dbl (dbl (Fin 400) * dbl (Fin 1.3)) * dbl (Fin 0.7))
                   + dbl (Fin 200 * dbl (Fin 0.3)))) = Fin 424"
proof -
  have inner: "dbl (dbl (dbl (dbl (Fin 400) * dbl (Fin 1.3)) * dbl (Fin 0.7))
             + dbl (Fin 200 * dbl (Fin 0.3))) = Fin 424"
    by (simp only: dbl.simps Fin_arith double_400 double_13 double_400_13 double_07
          double_520_07 double_03 double_200_03 double_364_60)
  have "Math_ceil (Fin 424) = Fin 424"
    by simp
  then show ?thesis by (simp only: inner)
qed

lemma blend_mixed:
  "Math_ceil (dbl (dbl (dbl (dbl (Fin (900 / 7)) * dbl (Fin 1.3)) * dbl (Fin 0.7))
                   + dbl (Fin 10 * dbl (Fin 0.3)))) = Fin 121"
proof -
  have inner: "dbl (dbl (dbl (dbl (Fin (900 / 7)) * dbl (Fin 1.3)) * dbl (Fin 0.7))
             + dbl (Fin 10 * dbl (Fin 0.3))) = Fin (8444249301319681 / 70368744177664)"
    by (simp only: dbl.simps Fin_arith double_mean double_13 double_mean_13 double_07
          double_mean_13_07 double_03 double_10_03 double_sum)
  have "Math_ceil (Fin (8444249301319681 / 70368744177664)) = Fin 121"
    by simp
  then show ?thesis by (simp only: inner)
qed

subsection \<open>The updated estimates\<close>

lemma initialEstimates_recordAll:
  "initialEstimates (foldl recordObservedDemand (newDemandForecaster plans chars) xs) =
     (case chars of None \<Rightarrow> amount 10 50 25 200 | Some c \<Rightarrow> demandEstimates c)"
  by (simp add: initialEstimates_def)

lemma blend_all_classes:
  "pc_get (foldl (blendEstimate s initial) u KIT_CLASSES) k =
     Math_ceil (dbl (dbl (dbl (dbl (getObservedMean s k) * dbl (Fin 1.3)) * dbl (Fin 0.7))
                     + dbl (pc_get initial k * dbl (Fin 0.3))))"
  by (cases k; simp add: KIT_CLASSES_def blendEstimate_def Let_def)

lemma anyClassDeviates_member:
  "k \<in> set ks \<Longrightarrow> \<not> jeq (pc_get est k) (Fin 0) \<Longrightarrow>
   jgt (getObservedMean s k / pc_get est k) (Fin 1.25) \<Longrightarrow> anyClassDeviates s est ks"
  by (induction ks) (auto simp: Let_def)

text \<open>
  Claim C6, as the code has it.  After any sequence of recorded observations: with fewer
  than 20 of them, \<open>getUpdatedDemandEstimates\<close> is the calibrated estimate (the default
  one when there is no calibration), whatever was observed; with 20 or more it is, for
  each class, the ceiling of observed mean times 1.3 times 0.7 plus initial estimate times
  0.3 as the doubles compute it: the mean, the three constants, each product and the sum
  rounded to the nearest double.  After 50 observations whose economy count is 400,
  against an economy estimate of 200, \<open>shouldRecalibrate\<close> holds and the updated economy
  estimate is 424.
\<close>

theorem getUpdatedDemandEstimates_double_blend:
  fixes xs :: "PerClassAmount list" and plans chars
  defines "s \<equiv> foldl recordObservedDemand (newDemandForecaster plans chars) xs"
  defines "est \<equiv> (case chars of None \<Rightarrow> amount 10 50 25 200 | Some c \<Rightarrow> demandEstimates c)"
  shows "(length xs < 20 \<longrightarrow> getUpdatedDemandEstimates s = est)
       \<and> (20 \<le> length xs \<longrightarrow>
            (\<forall>k. pc_get (getUpdatedDemandEstimates s) k =
                   Math_ceil (dbl (dbl (dbl (dbl (getObservedMean s k) * dbl (Fin 1.3)) * dbl (Fin 0.7))
                                   + dbl (pc_get est k * dbl (Fin 0.3))))))
       \<and> (length xs = 50 \<and> (\<forall>p\<in>set xs. economy p = Fin 400) \<and> economy est = Fin 200 \<longrightarrow>
            shouldRecalibrate s \<and> economy (getUpdatedDemandEstimates s) = Fin 424)"
proof (intro conjI impI allI)
  have init: "initialEstimates s = est"
    unfolding s_def est_def by (rule initialEstimates_recordAll)
  have cnt: "ds_count (demandStats s) = length xs"
    unfolding s_def by (simp add: count_recordAll)
  show "getUpdatedDemandEstimates s = est" if "length xs < 20"
    using that by (simp add: getUpdatedDemandEstimates_def cnt init)
  show "pc_get (getUpdatedDemandEstimates s) k =
          Math_ceil (dbl (dbl (dbl (dbl (getObservedMean s k) * dbl (Fin 1.3)) * dbl (Fin 0.7))
                          + dbl (pc_get est k * dbl (Fin 0.3))))"
    if "20 \<le> length xs" for k
  proof -
    have "getUpdatedDemandEstimates s = foldl (blendEstimate s est) (amount 0 0 0 0) KIT_CLASSES"
      using that by (simp add: getUpdatedDemandEstimates_def cnt init Let_def)
    then show ?thesis by (simp only: blend_all_classes)
  qed
  assume scen: "length xs = 50 \<and> (\<forall>p\<in>set xs. economy p = Fin 400) \<and> economy est = Fin 200"
  then have fin: "\<forall>p\<in>set xs. is_finite (pc_get p Economy)"
    and vals: "\<forall>p\<in>set xs. fin_val (pc_get p Economy) = 400"
    and ne: "xs \<noteq> []"
    by auto
  have mean: "getObservedMean s Economy = Fin 400"
    unfolding s_def using mean_recordAll[OF fin ne, of plans chars] sum_list_const[OF vals] scen
    by simp
  have e200: "pc_get est Economy = Fin 200"
    using scen by simp
  have "anyClassDeviates s est KIT_CLASSES"
  proof (rule anyClassDeviates_member[where k = Economy])
    show "Economy \<in> set KIT_CLASSES" by (simp add: KIT_CLASSES_def)
    show "\<not> jeq (pc_get est Economy) (Fin 0)" using scen by simp
    show "jgt (getObservedMean s Economy / pc_get est Economy) (Fin 1.25)"
      using scen mean by simp
  qed
  then show "shouldRecalibrate s"
    using scen by (simp add: shouldRecalibrate_def cnt init)
  have upd: "getUpdatedDemandEstimates s = foldl (blendEstimate s est) (amount 0 0 0 0) KIT_CLASSES"
    using scen by (simp add: getUpdatedDemandEstimates_def cnt init Let_def)
  have "pc_get (getUpdatedDemandEstimates s) Economy = Fin 424"
    by (simp only: upd blend_all_classes mean e200 blend_400_200)
  then show "economy (getUpdatedDemandEstimates s) = Fin 424"
    by simp
qed

theorem getUpdatedDemandEstimates_double_blend_witness:
  "shouldRecalibrate (foldl recordObservedDemand (newDemandForecaster [] None)
      (replicate 50 (amount 1 2 3 400)))
   \<and> economy (getUpdatedDemandEstimates (foldl recordObservedDemand (newDemandForecaster [] None)
      (replicate 50 (amount 1 2 3 400)))) = Fin 424"
  using getUpdatedDemandEstimates_double_blend[of "replicate 50 (amount 1 2 3 400)" "[]" None]
  by (simp add: amount_def)

text \<open>
  Claim C6 as stated, with the ceiling taken of the exact value, fails on an ordinary run:
  after 25 observations of 100 first-class passengers and 10 of 200, against the default
  estimate 10, the exact value of the formula is 120, and the code returns 121.
\<close>

theorem exact_blend_counterexample:
  "first (getUpdatedDemandEstimates
            (foldl recordObservedDemand (newDemandForecaster [] None) mixedObservations)) = Fin 121
   \<and> Math_ceil (getObservedMean
                   (foldl recordObservedDemand (newDemandForecaster [] None) mixedObservations) First
                 * Fin 1.3 * Fin 0.7 + Fin 10 * Fin 0.3) = Fin 120"
proof -
  let ?s = "foldl recordObservedDemand (newDemandForecaster [] None) mixedObservations"
  have fin: "\<forall>p\<in>set mixedObservations. is_finite (pc_get p First)"
    by (auto simp: mixedObservations_def amount_def)
  have ne: "mixedObservations \<noteq> []"
    by (simp add: mixedObservations_def)
  have mean: "getObservedMean ?s First = Fin (900 / 7)"
    using mean_recordAll[OF fin ne, of "[]" None]
    by (simp add: mixedObservations_def amount_def sum_list_replicate)
  have cnt: "ds_count (demandStats ?s) = 35"
    by (simp add: count_recordAll mixedObservations_def)
  have init: "initialEstimates ?s = amount 10 50 25 200"
    by (simp add: initialEstimates_def)
  have ten: "pc_get (amount 10 50 25 200) First = Fin 10"
    by (simp add: amount_def)
  have upd: "getUpdatedDemandEstimates ?s =
      foldl (blendEstimate ?s (amount 10 50 25 200)) (amount 0 0 0 0) KIT_CLASSES"
    by (simp add: getUpdatedDemandEstimates_def cnt init Let_def)
  have "pc_get (getUpdatedDemandEstimates ?s) First = Fin 121"
    by (simp only: upd blend_all_classes mean ten blend_mixed)
  then have code: "first (getUpdatedDemandEstimates ?s) = Fin 121"
    by simp
  have exact: "Math_ceil (getObservedMean ?s First * Fin 1.3 * Fin 0.7 + Fin 10 * Fin 0.3) = Fin 120"
    unfolding mean by simp
  show ?thesis
    using code exact by (rule conjI)
qed

section \<open>DemandForecaster: known flights in the forecast window\<close>

lemma departureCounted_closed:
  assumes "0 \<le> currentHour" and "0 \<le> withinHours"
    and "currentHour < 24"
    and "0 \<le> hour (departure f)" and "hour (departure f) < 24"
  shows "departureCounted airport currentDay currentHour withinHours f
          = inClosedWindow airport currentDay currentHour withinHours f"
proof -
  define T where "T = currentHour + withinHours"
  define q where "q = T div 24"
  define r where "r = T mod 24"
  have T: "T = 24 * q + r" and r: "0 \<le> r" "r < 24"
    by (simp_all add: q_def r_def)
  have T0: "0 \<le> T" using assms by (simp add: T_def)
  have rem: "js_rem T 24 = r"
    using T0 by (simp add: js_rem_def r_def)
  have inWin: "(day (departure f) < currentDay + q \<or>
         (day (departure f) = currentDay + q \<and> hour (departure f) \<le> r))
       = (24 * day (departure f) + hour (departure f) \<le> 24 * currentDay + T)"
    using T r assms(4,5) by auto
  have afterNow: "(currentDay < day (departure f) \<or>
         (day (departure f) = currentDay \<and> currentHour \<le> hour (departure f)))
       = (24 * currentDay + currentHour \<le> 24 * day (departure f) + hour (departure f))"
    using assms(1,3,4,5) by auto
  show ?thesis
    unfolding departureCounted_def inClosedWindow_def absHour_def Let_def
    using inWin afterNow rem by (auto simp: T_def q_def)
qed

text \<open>
  Claim C5, as the code has it.  With clock hours between 0 and 23 and a horizon that is
  not negative, \<open>calculateDemandForAirport\<close> counts a known flight's passengers exactly
  when the flight departs from the airport at or after the current (day, hour) and at or
  before the current (day, hour) plus the horizon: the window is the closed interval, and
  the sum over these flights is the demand that the flight-plan loop then starts from.
\<close>

theorem calculateDemandForAirport_closed_window:
  assumes "0 \<le> currentHour" and "currentHour < 24" and "0 \<le> withinHours"
    and "\<forall>f\<in>set (map snd knownFlights). 0 \<le> hour (departure f) \<and> hour (departure f) < 24"
  shows "(\<forall>f\<in>set (map snd knownFlights).
            departureCounted airport currentDay currentHour withinHours f
              = inClosedWindow airport currentDay currentHour withinHours f)
       \<and> calculateDemandForAirport this airport currentDay currentHour withinHours k knownFlights =
           hoursLoop (nat withinHours) airport currentHour currentDay k (flightPlans this)
             (foldl (+) (Fin 0)
                (map (\<lambda>f. pc_get (passengers f) k)
                   (filter (inClosedWindow airport currentDay currentHour withinHours)
                      (map snd knownFlights))),
              this)"
proof -
  have iff: "\<forall>f\<in>set (map snd knownFlights).
            departureCounted airport currentDay currentHour withinHours f
              = inClosedWindow airport currentDay currentHour withinHours f"
    using assms departureCounted_closed by blast
  then have "filter (departureCounted airport currentDay currentHour withinHours) (map snd knownFlights)
      = filter (inClosedWindow airport currentDay currentHour withinHours) (map snd knownFlights)"
    by (intro filter_cong) auto
  then have "knownFlightsDemand airport currentDay currentHour withinHours k knownFlights =
      foldl (+) (Fin 0)
        (map (\<lambda>f. pc_get (passengers f) k)
           (filter (inClosedWindow airport currentDay currentHour withinHours) (map snd knownFlights)))"
    unfolding knownFlightsDemand_def foldl_filter_add by simp
  then show ?thesis
    using iff unfolding calculateDemandForAirport_def by simp
qed

theorem calculateDemandForAirport_closed_window_witness:
  "calculateDemandForAirport (newDemandForecaster [] None) ''SPK'' 1 10 4 Economy
     [(''F1'', \<lparr>originAirport = ''SPK'', destinationAirport = ''HUB1'',
                departure = \<lparr>day = 1, hour = 14\<rparr>, arrival = \<lparr>day = 1, hour = 18\<rparr>,
                passengers = amount 1 2 3 40\<rparr>),
      (''F2'', \<lparr>originAirport = ''SPK'', destinationAirport = ''HUB1'',
                departure = \<lparr>day = 1, hour = 15\<rparr>, arrival = \<lparr>day = 1, hour = 19\<rparr>,
                passengers = amount 1 2 3 50\<rparr>)]
   = (Fin 40, newDemandForecaster [] None)"
  using calculateDemandForAirport_closed_window[of 10 4
     "[(''F1'', \<lparr>originAirport = ''SPK'', destinationAirport = ''HUB1'',
                departure = \<lparr>day = 1, hour = 14\<rparr>, arrival = \<lparr>day = 1, hour = 18\<rparr>,
                passengers = amount 1 2 3 40\<rparr>),
      (''F2'', \<lparr>originAirport = ''SPK'', destinationAirport = ''HUB1'',
                departure = \<lparr>day = 1, hour = 15\<rparr>, arrival = \<lparr>day = 1, hour = 19\<rparr>,
                passengers = amount 1 2 3 50\<rparr>)]"
     "''SPK''" 1 "newDemandForecaster [] None" Economy]
  by (simp add: inClosedWindow_def absHour_def amount_def newDemandForecaster_def
        numeral_eq_Suc)

text \<open>
  Claim C5 as stated fails for a flight that departs in the current hour: it is not
  strictly after the current (day, hour), and its passengers are counted.
\<close>

theorem departure_in_current_hour_counterexample:
  "fst (calculateDemandForAirport (newDemandForecaster [] None) ''SPK'' 1 10 4 Economy
     [(''F1'', \<lparr>originAirport = ''SPK'', destinationAirport = ''HUB1'',
                departure = \<lparr>day = 1, hour = 10\<rparr>, arrival = \<lparr>day = 1, hour = 14\<rparr>,
                passengers = amount 1 2 3 40\<rparr>)]) = Fin 40
   \<and> \<not> inHalfOpenWindow ''SPK'' 1 10 4
        \<lparr>originAirport = ''SPK'', destinationAirport = ''HUB1'',
         departure = \<lparr>day = 1, hour = 10\<rparr>, arrival = \<lparr>day = 1, hour = 14\<rparr>,
         passengers = amount 1 2 3 40\<rparr>"
  by (simp add: calculateDemandForAirport_def knownFlightsDemand_def departureCounted_def
        inHalfOpenWindow_def absHour_def js_rem_def amount_def newDemandForecaster_def
        numeral_eq_Suc)

section \<open>AdaptiveEngine: per-airport risk scores\<close>

lemma adjustPerformance_risk:
  "riskScore perf = Fin r \<Longrightarrow>
   riskScore (adjustPerformance rec perf) =
     Fin ((case pr_type rec of
             INVENTORY_EXCEEDS_CAPACITY \<Rightarrow> min 1 (r + 0.1)
           | FLIGHT_UNFULFILLED \<Rightarrow> max 0.1 (r - 0.02)
           | NEGATIVE_INVENTORY \<Rightarrow> r) * 0.99)"
  by (cases "pr_type rec") (simp_all add: adjustPerformance_def Let_def)

lemma adjustPerformance_bounded:
  assumes "riskScore perf = Fin r" and "0 < r" and "r \<le> 1"
  shows "\<exists>r'. riskScore (adjustPerformance rec perf) = Fin r' \<and> 0 < r' \<and> r' \<le> 1"
proof -
  let ?v = "(case pr_type rec of
             INVENTORY_EXCEEDS_CAPACITY \<Rightarrow> min 1 (r + 0.1)
           | FLIGHT_UNFULFILLED \<Rightarrow> max 0.1 (r - 0.02)
           | NEGATIVE_INVENTORY \<Rightarrow> r) * (0.99::real)"
  have "0 < ?v \<and> ?v \<le> 1"
    using assms(2,3) by (cases "pr_type rec") (auto simp: min_def max_def)
  then show ?thesis
    using adjustPerformance_risk[OF assms(1), of rec] by blast
qed

lemma perf_updateClassPenaltyStats [simp]:
  "airportPerformance (updateClassPenaltyStats s c a k) = airportPerformance s"
  by (simp add: updateClassPenaltyStats_def Let_def split: option.splits)

lemma updateAirportPerformance_bounded:
  assumes "riskScoresBounded s"
  shows "riskScoresBounded (updateAirportPerformance s a rec)"
proof -
  let ?perf = "(case airportPerformance s a of
                  None \<Rightarrow> \<lparr>overflowCount = 0, unfulfilledCount = 0, lastOverflowDay = - 1,
                            riskScore = Fin 0.5\<rparr>
                | Some p \<Rightarrow> p)"
  have "\<exists>r. riskScore ?perf = Fin r \<and> 0 < r \<and> r \<le> 1"
  proof (cases "airportPerformance s a")
    case None
    then show ?thesis by (simp add: exI[of _ "1 / 2"])
  next
    case (Some p)
    then show ?thesis using assms by (simp add: riskScoresBounded_def)
  qed
  then obtain r where "riskScore ?perf = Fin r" "0 < r" "r \<le> 1"
    by blast
  then have new: "\<exists>r'. riskScore (adjustPerformance rec ?perf) = Fin r' \<and> 0 < r' \<and> r' \<le> 1"
    by (rule adjustPerformance_bounded)
  show ?thesis
    unfolding riskScoresBounded_def
  proof (intro allI impI)
    fix a' perf'
    assume look: "airportPerformance (updateAirportPerformance s a rec) a' = Some perf'"
    show "\<exists>r. riskScore perf' = Fin r \<and> 0 < r \<and> r \<le> 1"
    proof (cases "a' = a")
      case True
      with look have "perf' = adjustPerformance rec ?perf"
        by (simp add: updateAirportPerformance_def Let_def)
      with new show ?thesis by simp
    next
      case False
      with look have "airportPerformance s a' = Some perf'"
        by (simp add: updateAirportPerformance_def Let_def)
      with assms show ?thesis by (simp add: riskScoresBounded_def)
    qed
  qed
qed

lemma bounded_cong:
  "airportPerformance s' = airportPerformance s \<Longrightarrow> riskScoresBounded s \<Longrightarrow> riskScoresBounded s'"
  by (simp add: riskScoresBounded_def)

lemma recordOne_perf:
  "airportPerformance (snd (recordOne d h acc p)) =
     (case matchAirport (reason p) of
        None \<Rightarrow> airportPerformance (snd acc)
      | Some a \<Rightarrow>
          airportPerformance
            (updateAirportPerformance (snd acc) a
               \<lparr>pr_day = d, pr_hour = h, pr_type = classifyPenalty (code p),
                pr_amount = penalty p, pr_airportCode = matchAirport (reason p),
                pr_kitClass = matchClass (reason p)\<rparr>))"
  by (simp add: recordOne_def Let_def parseReason_def updateAirportPerformance_def
        split: option.splits)

lemma recordOne_bounded:
  assumes "riskScoresBounded (snd acc)"
  shows "riskScoresBounded (snd (recordOne d h acc p))"
proof (cases "matchAirport (reason p)")
  case None
  then show ?thesis
    using assms by (intro bounded_cong[OF _ assms]) (simp add: recordOne_perf)
next
  case (Some a)
  show ?thesis
    by (rule bounded_cong[OF _ updateAirportPerformance_bounded[OF assms]])
       (simp add: recordOne_perf Some)
qed

lemma recordOne_absent:
  "airportPerformance (snd (recordOne d h acc p)) a = None \<longleftrightarrow>
     airportPerformance (snd acc) a = None \<and> matchAirport (reason p) \<noteq> Some a"
  by (auto simp: recordOne_perf updateAirportPerformance_def Let_def split: option.splits)

lemma foldl_recordOne_bounded:
  "riskScoresBounded (snd acc) \<Longrightarrow> riskScoresBounded (snd (foldl (recordOne d h) acc ps))"
  by (induction ps arbitrary: acc) (simp_all add: recordOne_bounded)

lemma foldl_recordOne_absent:
  "airportPerformance (snd (foldl (recordOne d h) acc ps)) a = None \<longleftrightarrow>
     airportPerformance (snd acc) a = None \<and> (\<forall>p\<in>set ps. matchAirport (reason p) \<noteq> Some a)"
  by (induction ps arbitrary: acc) (auto simp: recordOne_absent)

lemma recordPenalties_perf:
  "airportPerformance (recordPenalties s ps d h) =
     airportPerformance (snd (foldl (recordOne d h) (Fin 0, s) ps))"
  by (simp add: recordPenalties_def Let_def case_prod_beta takeDailySnapshot_def analyzeAndAdapt_def)

lemma suggest_perf:
  "airportPerformance (snd (suggestLoadFactorAdjustment s d)) = airportPerformance s"
  by (simp add: suggestLoadFactorAdjustment_def Let_def)

lemma perform_bounded:
  "riskScoresBounded s \<Longrightarrow> riskScoresBounded (perform s c)"
proof (cases c)
  case (RecordPenalties ps d h)
  assume "riskScoresBounded s"
  then have "riskScoresBounded (snd (foldl (recordOne d h) (Fin 0, s) ps))"
    by (intro foldl_recordOne_bounded) simp
  then show ?thesis
    using RecordPenalties by (simp add: riskScoresBounded_def recordPenalties_perf)
next
  case (SuggestLoadFactorAdjustment d)
  assume "riskScoresBounded s"
  then show ?thesis
    using SuggestLoadFactorAdjustment by (simp add: riskScoresBounded_def suggest_perf)
qed

lemma perform_absent:
  "airportPerformance (perform s c) a = None \<longleftrightarrow>
     airportPerformance s a = None \<and> (\<forall>p\<in>set (penaltiesOf c). matchAirport (reason p) \<noteq> Some a)"
  by (cases c) (simp_all add: recordPenalties_perf foldl_recordOne_absent suggest_perf)

lemma foldl_perform_bounded:
  "riskScoresBounded s \<Longrightarrow> riskScoresBounded (foldl perform s calls)"
  by (induction calls arbitrary: s) (simp_all add: perform_bounded)

lemma foldl_perform_absent:
  "airportPerformance (foldl perform s calls) a = None \<longleftrightarrow>
     airportPerformance s a = None \<and>
     (\<forall>c\<in>set calls. \<forall>p\<in>set (penaltiesOf c). matchAirport (reason p) \<noteq> Some a)"
  by (induction calls arbitrary: s) (auto simp: perform_absent)

lemma new_engine_perf [simp]: "airportPerformance newAdaptiveEngine = Map.empty"
  by (simp add: newAdaptiveEngine_def)

text \<open>
  Claim C10.  After any sequence of calls of the engine, every risk score stored for an
  airport is a finite number greater than 0 and at most 1; the risk score reported for an
  airport code that no recorded penalty was attributed to is 0.5; and one update takes a
  score \<open>r\<close> to 0.99 times \<open>min 1 (r + 0.1)\<close> for a capacity overflow, 0.99 times
  \<open>max 0.1 (r - 0.02)\<close> for an unfulfilled flight, and 0.99 times \<open>r\<close> otherwise.
\<close>

theorem riskScore_bounds:
  "(\<forall>a perf. airportPerformance (runCalls calls) a = Some perf \<longrightarrow>
       (\<exists>r. riskScore perf = Fin r \<and> 0 < r \<and> r \<le> 1))
   \<and> (\<forall>a. (\<forall>c\<in>set calls. \<forall>p\<in>set (penaltiesOf c). matchAirport (reason p) \<noteq> Some a) \<longrightarrow>
         getAirportRiskScore (runCalls calls) a = Fin 0.5)
   \<and> (\<forall>rec perf r. riskScore perf = Fin r \<longrightarrow>
         riskScore (adjustPerformance rec perf) =
           Fin ((case pr_type rec of
                   INVENTORY_EXCEEDS_CAPACITY \<Rightarrow> min 1 (r + 0.1)
                 | FLIGHT_UNFULFILLED \<Rightarrow> max 0.1 (r - 0.02)
                 | NEGATIVE_INVENTORY \<Rightarrow> r) * 0.99))"
proof (intro conjI allI impI)
  have "riskScoresBounded newAdaptiveEngine"
    by (simp add: riskScoresBounded_def)
  then have "riskScoresBounded (runCalls calls)"
    unfolding runCalls_def by (rule foldl_perform_bounded)
  then show "\<exists>r. riskScore perf = Fin r \<and> 0 < r \<and> r \<le> 1"
    if "airportPerformance (runCalls calls) a = Some perf" for a perf
    using that by (simp add: riskScoresBounded_def)
  show "getAirportRiskScore (runCalls calls) a = Fin 0.5"
    if "\<forall>c\<in>set calls. \<forall>p\<in>set (penaltiesOf c). matchAirport (reason p) \<noteq> Some a" for a
  proof -
    have "airportPerformance (runCalls calls) a = None"
      unfolding runCalls_def foldl_perform_absent using that by simp
    then show ?thesis by (simp add: getAirportRiskScore_def)
  qed
  show "riskScore (adjustPerformance rec perf) =
           Fin ((case pr_type rec of
                   INVENTORY_EXCEEDS_CAPACITY \<Rightarrow> min 1 (r + 0.1)
                 | FLIGHT_UNFULFILLED \<Rightarrow> max 0.1 (r - 0.02)
                 | NEGATIVE_INVENTORY \<Rightarrow> r) * 0.99)"
    if "riskScore perf = Fin r" for rec perf r
    using that by (rule adjustPerformance_risk)
qed

theorem riskScore_bounds_witness:
  "getAirportRiskScore
     (runCalls [RecordPenalties
        [\<lparr>code = ''INVENTORY_EXCEEDS_CAPACITY'', penalty = Fin 100,
          reason = ''Airport S1 Economy''\<rparr>] 1 5]) ''S2'' = Fin 0.5
   \<and> (\<exists>r. riskScore (the (airportPerformance
        (runCalls [RecordPenalties
           [\<lparr>code = ''INVENTORY_EXCEEDS_CAPACITY'', penalty = Fin 100,
             reason = ''Airport S1 Economy''\<rparr>] 1 5]) ''S1'')) = Fin r \<and> 0 < r \<and> r \<le> 1)"
proof -
  let ?calls = "[RecordPenalties
        [\<lparr>code = ''INVENTORY_EXCEEDS_CAPACITY'', penalty = Fin 100,
          reason = ''Airport S1 Economy''\<rparr>] 1 5]"
  have parsed: "matchAirport ''Airport S1 Economy'' = Some ''S1''"
    by code_simp
  have absent: "\<forall>c\<in>set ?calls. \<forall>p\<in>set (penaltiesOf c). matchAirport (reason p) \<noteq> Some ''S2''"
    by (simp add: parsed del: matchAirport.simps)
  have "airportPerformance (runCalls ?calls) ''S1'' \<noteq> None"
    unfolding runCalls_def foldl_perform_absent by (simp add: parsed del: matchAirport.simps)
  then obtain perf where present: "airportPerformance (runCalls ?calls) ''S1'' = Some perf"
    by blast
  note bounds = riskScore_bounds[of ?calls]
  have stored: "\<exists>r. riskScore perf = Fin r \<and> 0 < r \<and> r \<le> 1"
    using bounds[THEN conjunct1, THEN spec, THEN spec, THEN mp, OF present] .
  have unknown: "getAirportRiskScore (runCalls ?calls) ''S2'' = Fin 0.5"
    using bounds[THEN conjunct2, THEN conjunct1, THEN spec, THEN mp, OF absent] .
  show ?thesis
    using stored unknown by (simp only: present option.sel simp_thms)
qed

section \<open>AdaptiveEngine: the load-factor controller\<close>

lemma recordOne_controller:
  "loadFactorAdjustments (snd (recordOne d h acc p)) = loadFactorAdjustments (snd acc)"
  "lastAdjustmentDay (snd (recordOne d h acc p)) = lastAdjustmentDay (snd acc)"
  by (simp_all add: recordOne_def Let_def updateAirportPerformance_def updateClassPenaltyStats_def
        split: option.splits)

lemma foldl_recordOne_controller:
  "loadFactorAdjustments (snd (foldl (recordOne d h) acc ps)) = loadFactorAdjustments (snd acc)"
  "lastAdjustmentDay (snd (foldl (recordOne d h) acc ps)) = lastAdjustmentDay (snd acc)"
  by (induction ps arbitrary: acc) (simp_all add: recordOne_controller)

lemma recordPenalties_controller:
  "loadFactorAdjustments (recordPenalties s ps d h) = loadFactorAdjustments s"
  "lastAdjustmentDay (recordPenalties s ps d h) = lastAdjustmentDay s"
  by (simp_all add: recordPenalties_def Let_def case_prod_beta takeDailySnapshot_def
        analyzeAndAdapt_def foldl_recordOne_controller)

lemma suggest_warmup:
  "d < 3 \<Longrightarrow> suggestLoadFactorAdjustment s d = (Fin 0, s)"
  by (simp add: suggestLoadFactorAdjustment_def)

lemma suggest_same_day:
  "3 \<le> d \<Longrightarrow> lastAdjustmentDay s = d \<Longrightarrow>
   suggestLoadFactorAdjustment s d = (economy (loadFactorAdjustments s), s)"
  by (simp add: suggestLoadFactorAdjustment_def)

lemma suggest_returns:
  "3 \<le> d \<Longrightarrow>
   fst (suggestLoadFactorAdjustment s d) = economy (loadFactorAdjustments (snd (suggestLoadFactorAdjustment s d)))"
  by (simp add: suggestLoadFactorAdjustment_def Let_def)

lemma suggest_step:
  assumes x: "economy (loadFactorAdjustments s) = Fin x" and bound: "\<bar>x\<bar> \<le> 0.10"
  shows "\<exists>x'. economy (loadFactorAdjustments (snd (suggestLoadFactorAdjustment s d))) = Fin x'
            \<and> \<bar>x'\<bar> \<le> 0.10 \<and> \<bar>x' - x\<bar> \<le> 0.02"
proof -
  define up where "up \<longleftrightarrow>
    jgt (cls_unfulfilledCost (economy (classPenaltyStats s)) / Fin (of_int d)) (Fin 500000) \<and>
    jlt (getTotalOverflowCost s / Fin (of_int d)) (Fin 10000)"
  define down where "down \<longleftrightarrow> jgt (getTotalOverflowCost s / Fin (of_int d)) (Fin 10000 * Fin 5)"
  define a :: real where "a = (if up then 0.02 else if down then - 0.02 else 0)"
  define b :: real where
    "b = (if 0.10 < x + a then 0.10 - x else if x + a < - 0.10 then - 0.10 - x else a)"
  have res: "economy (loadFactorAdjustments (snd (suggestLoadFactorAdjustment s d))) =
      (if d < 3 \<or> d = lastAdjustmentDay s \<or> 0.10 \<le> \<bar>x\<bar> \<or> b = 0 then Fin x else Fin (x + b))"
    unfolding b_def a_def up_def down_def
    by (simp add: suggestLoadFactorAdjustment_def Let_def x)
  have a: "\<bar>a\<bar> \<le> 0.02"
    by (simp add: a_def)
  have b: "\<bar>b\<bar> \<le> 0.02 \<and> \<bar>x + b\<bar> \<le> 0.10"
    using a bound unfolding b_def by (auto simp: abs_if split: if_splits)
  show ?thesis
    unfolding res using b bound by auto
qed

lemma suggest_applied:
  assumes "economy (loadFactorAdjustments (snd (suggestLoadFactorAdjustment s d)))
            \<noteq> economy (loadFactorAdjustments s)"
  shows "3 \<le> d \<and> lastAdjustmentDay (snd (suggestLoadFactorAdjustment s d)) = d"
  using assms
  by (auto simp: suggestLoadFactorAdjustment_def Let_def split: if_splits)


lemma new_engine_controller [simp]:
  "economy (loadFactorAdjustments newAdaptiveEngine) = Fin 0"
  "lastAdjustmentDay newAdaptiveEngine = - 1"
  by (simp_all add: newAdaptiveEngine_def amount_def)

lemma foldl_perform_adjustment_bounded:
  "\<exists>x. economy (loadFactorAdjustments s) = Fin x \<and> \<bar>x\<bar> \<le> 0.10 \<Longrightarrow>
   \<exists>x. economy (loadFactorAdjustments (foldl perform s calls)) = Fin x \<and> \<bar>x\<bar> \<le> 0.10"
proof (induction calls arbitrary: s)
  case Nil
  then show ?case by simp
next
  case (Cons c calls)
  have "\<exists>x. economy (loadFactorAdjustments (perform s c)) = Fin x \<and> \<bar>x\<bar> \<le> 0.10"
  proof (cases c)
    case (RecordPenalties ps d h)
    then show ?thesis using Cons.prems by (simp add: recordPenalties_controller)
  next
    case (SuggestLoadFactorAdjustment d)
    from Cons.prems obtain x where "economy (loadFactorAdjustments s) = Fin x" "\<bar>x\<bar> \<le> 0.10"
      by blast
    from suggest_step[OF this, of d] show ?thesis
      using SuggestLoadFactorAdjustment by auto
  qed
  from Cons.IH[OF this] show ?case by simp
qed

lemma runCalls_adjustment_bounded:
  "\<exists>x. economy (loadFactorAdjustments (runCalls calls)) = Fin x \<and> \<bar>x\<bar> \<le> 0.10"
  unfolding runCalls_def by (rule foldl_perform_adjustment_bounded) simp

lemma same_day_calls:
  "3 \<le> d \<Longrightarrow> lastAdjustmentDay s = d \<Longrightarrow> \<forall>c\<in>set mid. callDay c = d \<Longrightarrow>
   lastAdjustmentDay (foldl perform s mid) = d \<and>
   loadFactorAdjustments (foldl perform s mid) = loadFactorAdjustments s"
proof (induction mid arbitrary: s)
  case Nil
  then show ?case by simp
next
  case (Cons c mid)
  have step: "lastAdjustmentDay (perform s c) = d \<and>
              loadFactorAdjustments (perform s c) = loadFactorAdjustments s"
  proof (cases c)
    case (RecordPenalties ps d' h)
    then show ?thesis using Cons.prems(2) by (simp add: recordPenalties_controller)
  next
    case (SuggestLoadFactorAdjustment d')
    with Cons.prems(3) have "d' = d" by simp
    then show ?thesis
      using SuggestLoadFactorAdjustment Cons.prems(1,2) by (simp add: suggest_same_day)
  qed
  from Cons.IH[of "perform s c"] step Cons.prems show ?case by simp
qed

lemma take_split:
  assumes "i < j" and "j \<le> length xs"
  shows "take j xs = take i xs @ xs ! i # take (j - Suc i) (drop (Suc i) xs)"
proof -
  have "take j xs = take (Suc i + (j - Suc i)) xs"
    using assms by simp
  also have "\<dots> = take (Suc i) xs @ take (j - Suc i) (drop (Suc i) xs)"
    by (rule take_add)
  also have "take (Suc i) xs = take i xs @ [xs ! i]"
    using assms by (intro take_Suc_conv_app_nth) simp
  finally show ?thesis by simp
qed

lemma days_between:
  assumes "sorted (map callDay calls)" and "i < j" and "j < length calls"
    and "callDay (calls ! i) = d" and "callDay (calls ! j) = d"
  shows "\<forall>c\<in>set (take (j - Suc i) (drop (Suc i) calls)). callDay c = d"
proof
  fix c
  assume "c \<in> set (take (j - Suc i) (drop (Suc i) calls))"
  then obtain n where n: "n < j - Suc i" "Suc i + n < length calls"
      and c: "c = calls ! (Suc i + n)"
    by (auto simp: in_set_conv_nth)
  have "map callDay calls ! i \<le> map callDay calls ! (Suc i + n)"
    using assms(1) n by (intro sorted_nth_mono) simp_all
  moreover have "map callDay calls ! (Suc i + n) \<le> map callDay calls ! j"
    using assms(1,3) n by (intro sorted_nth_mono) simp_all
  ultimately show "callDay c = d"
    using assms n c by simp
qed

text \<open>
  Claim C2.  Take any sequence of \<open>recordPenalties\<close> and
  \<open>suggestLoadFactorAdjustment\<close> calls whose days do not decrease, starting from a new
  engine, and any of its calls of \<open>suggestLoadFactorAdjustment\<close>, on day \<open>d\<close>.  Before
  day 3 the call returns 0.  The value it returns is a finite number of absolute value at
  most 0.10.  The cumulative economy adjustment stays within 0.10 of zero and the call
  moves it by at most 0.02.  And if the call did move it, every later call on the same
  day \<open>d\<close> returns the same value and leaves the adjustment as it is.
\<close>

theorem suggestLoadFactorAdjustment_bounded:
  assumes "sorted (map callDay calls)"
    and "i < length calls" and "calls ! i = SuggestLoadFactorAdjustment d"
  shows "(d < 3 \<longrightarrow> fst (suggestLoadFactorAdjustment (runCalls (take i calls)) d) = Fin 0)
       \<and> (\<exists>v. fst (suggestLoadFactorAdjustment (runCalls (take i calls)) d) = Fin v \<and> \<bar>v\<bar> \<le> 0.10)
       \<and> (\<exists>x x'. economy (loadFactorAdjustments (runCalls (take i calls))) = Fin x
              \<and> economy (loadFactorAdjustments (runCalls (take (Suc i) calls))) = Fin x'
              \<and> \<bar>x'\<bar> \<le> 0.10 \<and> \<bar>x' - x\<bar> \<le> 0.02)
       \<and> (\<forall>j. i < j \<and> j < length calls \<and> calls ! j = SuggestLoadFactorAdjustment d
              \<and> economy (loadFactorAdjustments (runCalls (take (Suc i) calls)))
                  \<noteq> economy (loadFactorAdjustments (runCalls (take i calls)))
            \<longrightarrow> fst (suggestLoadFactorAdjustment (runCalls (take j calls)) d)
                  = fst (suggestLoadFactorAdjustment (runCalls (take i calls)) d)
              \<and> economy (loadFactorAdjustments (runCalls (take (Suc j) calls)))
                  = economy (loadFactorAdjustments (runCalls (take j calls))))"
proof -
  let ?s = "runCalls (take i calls)"
  let ?s' = "snd (suggestLoadFactorAdjustment ?s d)"
  have next_state: "runCalls (take (Suc k) calls) = perform (runCalls (take k calls)) (calls ! k)"
    if "k < length calls" for k
    using that by (simp add: runCalls_def take_Suc_conv_app_nth)
  have s': "runCalls (take (Suc i) calls) = ?s'"
    using next_state[OF assms(2)] assms(3) by simp
  obtain x where x: "economy (loadFactorAdjustments ?s) = Fin x" "\<bar>x\<bar> \<le> 0.10"
    using runCalls_adjustment_bounded by blast
  from suggest_step[OF x, of d] obtain x' where
    x': "economy (loadFactorAdjustments ?s') = Fin x'" "\<bar>x'\<bar> \<le> 0.10" "\<bar>x' - x\<bar> \<le> 0.02"
    by blast
  have warm: "d < 3 \<longrightarrow> fst (suggestLoadFactorAdjustment ?s d) = Fin 0"
    by (simp add: suggest_warmup)
  have ret: "\<exists>v. fst (suggestLoadFactorAdjustment ?s d) = Fin v \<and> \<bar>v\<bar> \<le> 0.10"
  proof (cases "d < 3")
    case True
    then show ?thesis by (simp add: suggest_warmup)
  next
    case False
    then show ?thesis using suggest_returns[of d ?s] x' by simp
  qed
  have step: "\<exists>x x'. economy (loadFactorAdjustments ?s) = Fin x
              \<and> economy (loadFactorAdjustments (runCalls (take (Suc i) calls))) = Fin x'
              \<and> \<bar>x'\<bar> \<le> 0.10 \<and> \<bar>x' - x\<bar> \<le> 0.02"
    unfolding s' using x x' by blast
  have once: "fst (suggestLoadFactorAdjustment (runCalls (take j calls)) d)
                  = fst (suggestLoadFactorAdjustment ?s d)
              \<and> economy (loadFactorAdjustments (runCalls (take (Suc j) calls)))
                  = economy (loadFactorAdjustments (runCalls (take j calls)))"
    if j: "i < j" "j < length calls" "calls ! j = SuggestLoadFactorAdjustment d"
      and applied: "economy (loadFactorAdjustments (runCalls (take (Suc i) calls)))
                  \<noteq> economy (loadFactorAdjustments ?s)"
    for j
  proof -
    let ?mid = "take (j - Suc i) (drop (Suc i) calls)"
    let ?t = "runCalls (take j calls)"
    from applied have day: "3 \<le> d" "lastAdjustmentDay ?s' = d"
      using suggest_applied[of ?s d] unfolding s' by simp_all
    have "take j calls = take i calls @ calls ! i # ?mid"
      using j by (intro take_split) simp_all
    then have t: "?t = foldl perform ?s' ?mid"
      using assms(3) by (simp add: runCalls_def)
    have "\<forall>c\<in>set ?mid. callDay c = d"
      using assms(1) j(1,2) by (rule days_between) (simp_all add: assms(3) j(3))
    from same_day_calls[OF day this]
    have same: "lastAdjustmentDay ?t = d" "loadFactorAdjustments ?t = loadFactorAdjustments ?s'"
      unfolding t by simp_all
    have again: "suggestLoadFactorAdjustment ?t d = (economy (loadFactorAdjustments ?t), ?t)"
      using day(1) same(1) by (rule suggest_same_day)
    have "fst (suggestLoadFactorAdjustment ?t d) = fst (suggestLoadFactorAdjustment ?s d)"
      using again same(2) suggest_returns[OF day(1), of ?s] by simp
    moreover have "runCalls (take (Suc j) calls) = ?t"
      using next_state[OF j(2)] j(3) again by simp
    ultimately show ?thesis by simp
  qed
  show ?thesis
    using warm ret step once by blast
qed

theorem suggestLoadFactorAdjustment_bounded_witness:
  "fst (suggestLoadFactorAdjustment
         (runCalls (take 2
            [RecordPenalties [\<lparr>code = ''FLIGHT_UNFULFILLED'', penalty = Fin 6000000,
                               reason = ''Economy''\<rparr>] 3 0,
             SuggestLoadFactorAdjustment 3,
             SuggestLoadFactorAdjustment 3])) 3)
   = fst (suggestLoadFactorAdjustment
         (runCalls (take 1
            [RecordPenalties [\<lparr>code = ''FLIGHT_UNFULFILLED'', penalty = Fin 6000000,
                               reason = ''Economy''\<rparr>] 3 0,
             SuggestLoadFactorAdjustment 3,
             SuggestLoadFactorAdjustment 3])) 3)
   \<and> economy (loadFactorAdjustments (runCalls (take 2
            [RecordPenalties [\<lparr>code = ''FLIGHT_UNFULFILLED'', penalty = Fin 6000000,
                               reason = ''Economy''\<rparr>] 3 0,
             SuggestLoadFactorAdjustment 3,
             SuggestLoadFactorAdjustment 3]))) = Fin 0.02"
proof -
  let ?calls = "[RecordPenalties [\<lparr>code = ''FLIGHT_UNFULFILLED'', penalty = Fin 6000000,
                               reason = ''Economy''\<rparr>] 3 0,
             SuggestLoadFactorAdjustment 3,
             SuggestLoadFactorAdjustment 3]"
  have before: "economy (loadFactorAdjustments (runCalls (take 1 ?calls))) = Fin 0"
    by code_simp
  have after: "economy (loadFactorAdjustments (runCalls (take (Suc 1) ?calls))) = Fin 0.02"
    by code_simp
  have days: "sorted (map callDay ?calls)"
    by simp
  have applied: "1 < (2::nat) \<and> 2 < length ?calls \<and> ?calls ! 2 = SuggestLoadFactorAdjustment 3
     \<and> economy (loadFactorAdjustments (runCalls (take (Suc 1) ?calls)))
         \<noteq> economy (loadFactorAdjustments (runCalls (take 1 ?calls)))"
    unfolding before after by simp
  note claim = suggestLoadFactorAdjustment_bounded[OF days, of 1 3]
  have "1 < length ?calls" and "?calls ! 1 = SuggestLoadFactorAdjustment 3"
    by simp_all
  from claim[OF this, THEN conjunct2, THEN conjunct2, THEN conjunct2, THEN spec, THEN mp, OF applied]
  show ?thesis
    using after by (simp add: numeral_2_eq_2)
qed

section \<open>NetworkCalibrator\<close>

text \<open>
  Claim C4.  The economic-optimal component of the economy load factor is 1 for every
  penalty/cost ratio of at least 1 (also for an infinite one), 0.5 for the ratio 0, and
  0.5 + 0.5 R for every ratio R from 0 up to, but excluding, 1.
\<close>

theorem economicOptimal_piecewise:
  "(\<forall>r. 1 \<le> r \<longrightarrow> economicOptimal (Fin r) = Fin 1)
   \<and> economicOptimal PInf = Fin 1
   \<and> economicOptimal (Fin 0) = Fin 0.5
   \<and> (\<forall>r. 0 \<le> r \<and> r < 1 \<longrightarrow> economicOptimal (Fin r) = Fin (0.5 + 0.5 * r))"
  by (simp add: economicOptimal_def jge_def jle_def jeq_def)

theorem economicOptimal_piecewise_witness:
  "economicOptimal (Fin 2) = Fin 1 \<and> economicOptimal (Fin 0.5) = Fin 0.75"
  using economicOptimal_piecewise[THEN conjunct1, THEN spec, of 2]
        economicOptimal_piecewise[THEN conjunct2, THEN conjunct2, THEN conjunct2, THEN spec, of "0.5"]
  by simp

lemma analyzeTopology_fails:
  "map_of airports ''HUB1'' = None \<Longrightarrow>
   analyzeTopology airports plans = Inl (Error ''HUB1 not found in airports data'')"
  by (simp add: analyzeTopology_def Let_def)

lemma analyzeTopology_succeeds:
  "map_of airports ''HUB1'' = Some hub \<Longrightarrow> \<exists>topo. analyzeTopology airports plans = Inr topo"
  by (simp add: analyzeTopology_def Let_def case_prod_beta)

text \<open>
  Claim C1, as the code has it.  \<open>calibrate\<close> takes as the hub the airport stored under
  the key \<open>HUB1\<close>, whatever the hub flags say.  It fails, with the error
  \<open>HUB1 not found in airports data\<close> and without a partial result, exactly when the map
  has no entry for that key; on every other input it returns a result.
\<close>

theorem calibrate_fails_without_HUB1:
  "(map_of airports ''HUB1'' = None \<longrightarrow>
      calibrate airports aircraft plans = Inl (Error ''HUB1 not found in airports data''))
   \<and> (map_of airports ''HUB1'' \<noteq> None \<longrightarrow> (\<exists>r. calibrate airports aircraft plans = Inr r))"
proof (intro conjI impI)
  assume "map_of airports ''HUB1'' = None"
  then show "calibrate airports aircraft plans = Inl (Error ''HUB1 not found in airports data'')"
    by (simp add: calibrate_def analyzeTopology_fails)
next
  assume "map_of airports ''HUB1'' \<noteq> None"
  then obtain hub where "map_of airports ''HUB1'' = Some hub"
    by blast
  from analyzeTopology_succeeds[OF this, of plans] obtain topo
    where "analyzeTopology airports plans = Inr topo" by blast
  then show "\<exists>r. calibrate airports aircraft plans = Inr r"
    by (simp add: calibrate_def Let_def)
qed

theorem calibrate_fails_without_HUB1_witness:
  "calibrate [] [] [] = Inl (Error ''HUB1 not found in airports data'')
   \<and> (\<exists>r. calibrate [(''HUB1'', scenarioHub)] [] [] = Inr r)"
  using calibrate_fails_without_HUB1[of "[]" "[]" "[]"]
        calibrate_fails_without_HUB1[of "[(''HUB1'', scenarioHub)]" "[]" "[]"]
  by simp

text \<open>
  Claim C1 as stated fails for a map whose only airport carries the hub flag under another
  key: the calibration fails although a hub-flagged airport is present.
\<close>

theorem hub_flag_without_HUB1_counterexample:
  "isHub scenarioHub
   \<and> calibrate [(''HUB2'', scenarioHub)] [] [] = Inl (Error ''HUB1 not found in airports data'')"
  by (simp add: scenarioHub_def calibrate_def analyzeTopology_def Let_def)

lemma topology_hub_only:
  assumes "isHub hub"
  shows "analyzeTopology [(''HUB1'', hub)] [] =
     Inr \<lparr>hubCode = ''HUB1'', spokeCount = 0, totalFlightsPerDay = Fin 0,
          avgFlightsPerSpoke = Fin 0, hubCapacity = capacity hub,
          avgSpokeCapacity = amount 0 0 0 0,
          minSpokeCapacity = \<lparr>first = PInf, business = PInf, premiumEconomy = PInf, economy = PInf\<rparr>,
          capacityRatio = amount 1 1 1 1\<rparr>"
  using assms
  by (simp add: analyzeTopology_def spokesOf_def countWeekdays_def Let_def num_def amount_def eval_nat_numeral
        KIT_CLASSES_def)

text \<open>
  Claim C3, as the code has it.  For no flight plans, no aircraft and a single airport,
  flagged as the hub, with capacity 1000, 3000, 1500 and 20000, that is stored under the
  key \<open>HUB1\<close>: \<open>calibrate\<close> succeeds, its demand estimates are the fallback 10, 50, 25
  and 200, its confidence is at most 0.6, and its list of warnings is not empty.
\<close>

theorem calibrate_hub_only:
  assumes "isHub hub" and "capacity hub = amount 1000 3000 1500 20000"
  shows "\<exists>r. calibrate [(''HUB1'', hub)] [] [] = Inr r
            \<and> demandEstimates r = amount 10 50 25 200
            \<and> jle (confidence r) (Fin 0.6)
            \<and> warnings r \<noteq> []"
  by (simp add: calibrate_def topology_hub_only[OF assms(1)] Let_def estimateDemand_def
       calculateConfidence_def analyzeEconomics_def)

theorem calibrate_hub_only_witness:
  "\<exists>r. calibrate [(''HUB1'', scenarioHub)] [] [] = Inr r
            \<and> demandEstimates r = amount 10 50 25 200
            \<and> jle (confidence r) (Fin 0.6)
            \<and> warnings r \<noteq> []"
  using calibrate_hub_only[of scenarioHub]
  by (simp add: scenarioHub_def)

text \<open>
  Claim C3 as stated, for any single hub airport of that capacity, fails when the airport
  is stored under another key than \<open>HUB1\<close>: the calibration does not succeed.
\<close>

theorem hub_only_other_key_counterexample:
  "isHub scenarioHub
   \<and> capacity scenarioHub = amount 1000 3000 1500 20000
   \<and> calibrate [(''HUB'', scenarioHub)] [] [] = Inl (Error ''HUB1 not found in airports data'')"
  by (simp add: scenarioHub_def calibrate_def analyzeTopology_def Let_def)

subsection \<open>Bounds of the calibrated parameters\<close>

text \<open>
  Every clamp of the calibrator is \<open>Math.max(lo, Math.min(hi, x))\<close>, which keeps \<open>x\<close>
  between the bounds unless \<open>x\<close> is \<open>NaN\<close>: the outputs are inside their bounds whenever
  no \<open>NaN\<close> reaches a clamp.
\<close>

lemma clamp_in_bounds:
  "x \<noteq> NaN \<Longrightarrow> lo \<le> hi \<Longrightarrow>
   \<exists>r. Math_max (Fin lo) (Math_min (Fin hi) x) = Fin r \<and> lo \<le> r \<and> r \<le> hi"
  by (cases x) (auto simp: Math_min_def Math_max_def)

lemma purchaseThreshold_in_bounds:
  assumes "(totalFlightsPerDay topo / Fin 24) * pc_get estimates k * pc_get LEAD_TIMES k * Fin 1.5
             / pc_get (hubCapacity topo) k \<noteq> NaN"
  shows "\<exists>r. purchaseThreshold topo estimates k = Fin r \<and> 0.05 \<le> r \<and> r \<le> 0.90"
  unfolding purchaseThreshold_def Let_def purchaseThreshold_min_def purchaseThreshold_max_def
  using clamp_in_bounds[OF assms, of "0.05" "0.90"] by simp

lemma band_not_NaN:
  "x \<noteq> NaN \<Longrightarrow> 0 < c \<Longrightarrow> Fin a + (Fin 20 - x) * Fin c \<noteq> NaN"
  by (cases x) (auto simp: plus_jsnum_def minus_jsnum_def times_jsnum_def)

lemma destinationBuffers_in_bands:
  assumes "economy (capacityRatio topo) \<noteq> NaN"
    and "premiumEconomy (capacityRatio topo) \<noteq> NaN"
    and "first (capacityRatio topo) \<noteq> NaN"
  shows "\<exists>e p f. db_economy (calculateDestinationBuffers topo) = Fin e \<and> 0.65 \<le> e \<and> e \<le> 0.80
           \<and> db_premiumEconomy (calculateDestinationBuffers topo) = Fin p \<and> 0.75 \<le> p \<and> p \<le> 0.85
           \<and> db_firstBusiness (calculateDestinationBuffers topo) = Fin f \<and> 0.80 \<le> f \<and> f \<le> 0.90"
  using clamp_in_bounds[OF band_not_NaN[OF assms(1), of "0.01" "0.65"], of "0.65" "0.80"]
        clamp_in_bounds[OF band_not_NaN[OF assms(2), of "0.005" "0.75"], of "0.75" "0.85"]
        clamp_in_bounds[OF band_not_NaN[OF assms(3), of "0.005" "0.80"], of "0.80" "0.90"]
  by (auto simp: calculateDestinationBuffers_def Let_def)

lemma baseline0_not_NaN:
  "R \<noteq> NaN \<Longrightarrow> c \<noteq> NaN \<Longrightarrow>
   Fin 0.55 + (economicOptimal R - Fin 0.5) * Fin 0.35 + Math_min (Fin 1.0) (c / Fin 15) * Fin 0.10 \<noteq> NaN"
  by (cases R; cases c)
     (auto simp: economicOptimal_def jge_def jle_def jeq_def Math_min_def
        plus_jsnum_def minus_jsnum_def times_jsnum_def divide_jsnum_def)

lemma round_percent:
  assumes "0.50 \<le> r" and "r \<le> 0.90"
  shows "\<exists>b. Math_round (Fin r * Fin 100) / Fin 100 = Fin b \<and> 0.50 \<le> b \<and> b \<le> 0.90"
proof -
  have lo: "(50::int) \<le> \<lfloor>r * 100 + 1 / 2\<rfloor>"
    using assms(1) by (simp add: le_floor_iff)
  have hi: "\<lfloor>r * 100 + 1 / 2\<rfloor> \<le> (90::int)"
    using assms(2) by (simp add: floor_le_iff)
  have "Math_round (Fin r * Fin 100) / Fin 100 = Fin (of_int \<lfloor>r * 100 + 1 / 2\<rfloor> / 100)"
    by simp
  moreover have "0.50 \<le> (of_int \<lfloor>r * 100 + 1 / 2\<rfloor> / 100 :: real)"
    using lo by simp
  moreover have "(of_int \<lfloor>r * 100 + 1 / 2\<rfloor> / 100 :: real) \<le> 0.90"
    using hi by simp
  ultimately show ?thesis by blast
qed

lemma baseline_in_bounds:
  assumes "penaltyCostRatio econ \<noteq> NaN" and "economy (capacityRatio topo) \<noteq> NaN"
  shows "\<exists>b. baseline (calculateEconomyLoadFactor econ topo) = Fin b \<and> 0.50 \<le> b \<and> b \<le> 0.90"
proof -
  from clamp_in_bounds[OF baseline0_not_NaN[OF assms], of "0.50" "0.90"]
  obtain r where r: "Math_max (Fin 0.50) (Math_min (Fin 0.90)
      (Fin 0.55 + (economicOptimal (penaltyCostRatio econ) - Fin 0.5) * Fin 0.35
        + Math_min (Fin 1.0) (economy (capacityRatio topo) / Fin 15) * Fin 0.10)) = Fin r"
      "0.50 \<le> r" "r \<le> 0.90"
    by auto
  have "baseline (calculateEconomyLoadFactor econ topo) =
      Math_round (Math_max (Fin 0.50) (Math_min (Fin 0.90)
        (Fin 0.55 + (economicOptimal (penaltyCostRatio econ) - Fin 0.5) * Fin 0.35
          + Math_min (Fin 1.0) (economy (capacityRatio topo) / Fin 15) * Fin 0.10)) * Fin 100)
        / Fin 100"
    by (simp add: calculateEconomyLoadFactor_def Let_def economyLoadFactor_min_def
          economyLoadFactor_max_def)
  also have "\<dots> = Math_round (Fin r * Fin 100) / Fin 100"
    by (simp only: r(1))
  finally have eq: "baseline (calculateEconomyLoadFactor econ topo)
      = Math_round (Fin r * Fin 100) / Fin 100" .
  show ?thesis
    unfolding eq by (rule round_percent[OF r(2,3)])
qed


lemma purchaseThresholds_at:
  "pc_get (calculatePurchaseThresholds topo estimates) k = purchaseThreshold topo estimates k"
  by (cases k; simp add: calculatePurchaseThresholds_def KIT_CLASSES_def)

lemma calibrate_fields:
  assumes "calibrate airports aircraft plans = Inr r"
  shows "economyLoadFactor r = calculateEconomyLoadFactor (economics r) (topology r)
       \<and> destinationBuffers r = calculateDestinationBuffers (topology r)
       \<and> purchaseThresholdPercents r = calculatePurchaseThresholds (topology r) (demandEstimates r)"
  using assms by (auto simp: calibrate_def Let_def split: sum.splits)

lemma calibrate_in_bounds_unless_NaN:
  assumes ok: "calibrate airports aircraft plans = Inr r"
    and ratio: "penaltyCostRatio (economics r) \<noteq> NaN"
    and caps: "\<forall>k. pc_get (capacityRatio (topology r)) k \<noteq> NaN"
    and raw: "\<forall>k. (totalFlightsPerDay (topology r) / Fin 24) * pc_get (demandEstimates r) k
                   * pc_get LEAD_TIMES k * Fin 1.5 / pc_get (hubCapacity (topology r)) k \<noteq> NaN"
  shows "(\<exists>b. baseline (economyLoadFactor r) = Fin b \<and> 0.50 \<le> b \<and> b \<le> 0.90)
       \<and> (\<forall>k. \<exists>t. pc_get (purchaseThresholdPercents r) k = Fin t \<and> 0.05 \<le> t \<and> t \<le> 0.90)
       \<and> (\<exists>e p f. db_economy (destinationBuffers r) = Fin e \<and> 0.65 \<le> e \<and> e \<le> 0.80
             \<and> db_premiumEconomy (destinationBuffers r) = Fin p \<and> 0.75 \<le> p \<and> p \<le> 0.85
             \<and> db_firstBusiness (destinationBuffers r) = Fin f \<and> 0.80 \<le> f \<and> f \<le> 0.90)"
proof (intro conjI allI)
  note fields = calibrate_fields[OF ok]
  have e: "economy (capacityRatio (topology r)) \<noteq> NaN"
    and p: "premiumEconomy (capacityRatio (topology r)) \<noteq> NaN"
    and f: "first (capacityRatio (topology r)) \<noteq> NaN"
    using caps[THEN spec, of Economy] caps[THEN spec, of PremiumEconomy] caps[THEN spec, of First]
    by simp_all
  show "\<exists>b. baseline (economyLoadFactor r) = Fin b \<and> 0.50 \<le> b \<and> b \<le> 0.90"
    using baseline_in_bounds[OF ratio e] fields by simp
  show "\<exists>t. pc_get (purchaseThresholdPercents r) k = Fin t \<and> 0.05 \<le> t \<and> t \<le> 0.90" for k
    using purchaseThreshold_in_bounds[OF raw[THEN spec, of k]] fields
    by (simp add: purchaseThresholds_at)
  show "\<exists>e p f. db_economy (destinationBuffers r) = Fin e \<and> 0.65 \<le> e \<and> e \<le> 0.80
             \<and> db_premiumEconomy (destinationBuffers r) = Fin p \<and> 0.75 \<le> p \<and> p \<le> 0.85
             \<and> db_firstBusiness (destinationBuffers r) = Fin f \<and> 0.80 \<le> f \<and> f \<le> 0.90"
    using destinationBuffers_in_bands[OF e p f] fields by simp
qed

text \<open>
  Claim C7 does not hold on the code for a hub whose capacity for a class is 0 when no
  flight is planned: the raw threshold of that class is 0 / 0, the clamp returns \<open>NaN\<close>,
  and the purchase threshold of the class is not in the interval from 0.05 to 0.90,
  although the calibration succeeds.
\<close>

theorem purchaseThreshold_NaN_for_zero_hub_capacity:
  "\<exists>r. calibrate [(''HUB1'', scenarioHub\<lparr>capacity := amount 0 3000 1500 20000\<rparr>)] [] [] = Inr r
        \<and> first (purchaseThresholdPercents r) = NaN"
  by (simp add: calibrate_def topology_hub_only scenarioHub_def Let_def estimateDemand_def
        calculatePurchaseThresholds_def purchaseThreshold_def KIT_CLASSES_def amount_def
        LEAD_TIMES_def divide_jsnum_def Math_min_def Math_max_def purchaseThreshold_min_def
        purchaseThreshold_max_def)

end
